theory Spec2Isabelle
  imports Complex_Main "HOL-Library.Word"
begin

unbundle bit_operations_syntax

section \<open>Machine types and the constants of data.hpp\<close>

type_synonym u8 = "8 word"
type_synonym u32 = "32 word"

text \<open>
  Modelled from the spec: the header data.hpp is not among the sources, so the constants
  it defines are fixed here. Four samples are packed into a byte, two bits each, low to
  high (spec section 6), hence the density and the four masks that go with the shifts by
  0, 2, 4 and 6 in \<open>decode_plink\<close>; the header of the genotype file has three bytes (the
  comment in \<open>read_bed\<close>: two bytes of magic number and one of mode); the missing
  sentinel is the value 3 that \<open>decode_plink\<close> writes for the pattern 01.
\<close>

definition PACK_DENSITY :: nat where "PACK_DENSITY = 4"
definition PLINK_OFFSET :: nat where "PLINK_OFFSET = 3"
definition PLINK_NA :: nat where "PLINK_NA = 3"
definition MASK0 :: u8 where "MASK0 = 3"
definition MASK1 :: u8 where "MASK1 = 12"
definition MASK2 :: u8 where "MASK2 = 48"
definition MASK3 :: u8 where "MASK3 = 192"

text \<open>
  An \<open>unsigned int\<close> has 32 bits; arithmetic on it wraps around, and its conversion to
  \<open>int\<close> reads the same bits in two's complement.
\<close>

definition uint_wrap :: "nat \<Rightarrow> nat" where
  "uint_wrap x = x mod 2 ^ 32"

definition int_of_uint :: "nat \<Rightarrow> int" where
  "int_of_uint n = (if n < 2 ^ 31 then int n else int n - 2 ^ 32)"

section \<open>The decoder\<close>

text \<open>
  The body that \<open>decode_plink\<close> repeats for each of the four 2-bit groups of a byte:
  \<open>a1 = !(geno & 1); a2 = !(geno >> 1); (geno == 1) ? 3 : a1 + a2\<close>. The two alleles
  are \<open>unsigned int\<close>, the result is stored into an \<open>unsigned char\<close>.
\<close>

definition genotype :: "u8 \<Rightarrow> u8" where
  "genotype geno =
     (let a1 = (if geno AND 1 = 0 then 1 else 0 :: u32);
          a2 = (if drop_bit 1 geno = 0 then 1 else 0 :: u32)
      in if geno = 1 then 3 else ucast (a1 + a2))"

text \<open>
  One iteration of the loop of \<open>decode_plink\<close>: the byte \<open>in[i]\<close> is unpacked into
  \<open>out[k]\<close>, ..., \<open>out[k + 3]\<close> with \<open>k = PACK_DENSITY * i\<close>, an \<open>unsigned int\<close>.
\<close>

definition decode_step :: "u8 list \<Rightarrow> nat \<Rightarrow> u8 list \<Rightarrow> u8 list" where
  "decode_step inp i out =
     (let tmp = inp ! i;
          k0 = uint_wrap (PACK_DENSITY * i);
          out0 = out[k0 := genotype (tmp AND MASK0)];
          k1 = uint_wrap (k0 + 1);
          out1 = out0[k1 := genotype (drop_bit 2 (tmp AND MASK1))];
          k2 = uint_wrap (k1 + 1);
          out2 = out1[k2 := genotype (drop_bit 4 (tmp AND MASK2))];
          k3 = uint_wrap (k2 + 1)
      in out2[k3 := genotype (drop_bit 6 (tmp AND MASK3))])"

text \<open>
  \<open>decode_plink(out, in, n)\<close>: the loop \<open>for(i = 0 ; i < n ; ++i)\<close> over the input
  bytes. The caller owns both buffers; the function returns the output buffer as it
  stands after the loop.
\<close>

definition decode_plink :: "u8 list \<Rightarrow> u8 list \<Rightarrow> nat \<Rightarrow> u8 list" where
  "decode_plink out inp n = fold (decode_step inp) [0..<n] out"

text \<open>
  The rule of the specification, in its words: for a 2-bit value, \<open>a1\<close> is 1 if bit 0
  is 0, \<open>a2\<close> is 1 if bit 1 is 0; the value binary 01 is the missing sentinel, any other
  value has the dosage \<open>a1 + a2\<close>. The groups of a byte are taken low to high.
\<close>

definition spec_dosage :: "nat \<Rightarrow> nat" where
  "spec_dosage g =
     (let a1 = (if bit g 0 then 0 else 1);
          a2 = (if bit g 1 then 0 else 1)
      in if g = 1 then PLINK_NA else a1 + a2)"

definition two_bit_group :: "u8 \<Rightarrow> nat \<Rightarrow> nat" where
  "two_bit_group b g = (unat b div 4 ^ g) mod 4"

section \<open>Double-precision values\<close>

text \<open>
  A \<open>double\<close> is modelled by its value: a finite real, one of the two infinities, or
  NaN. The operations follow IEEE 754 on the special values (division by zero, the
  invalid operations that give NaN, comparisons with NaN); on finite values they are
  the exact operations on reals, so rounding is not modelled. The two zeros are one
  value: a zero divisor is read as \<open>+0\<close>, which is what every divisor of this program
  is when it is zero (a count converted from \<open>unsigned int\<close>, or a square root).
\<close>

datatype dbl = Fin real | PInf | NInf | NaN

fun dbl_neg :: "dbl \<Rightarrow> dbl" where
  "dbl_neg (Fin a) = Fin (- a)"
| "dbl_neg PInf = NInf"
| "dbl_neg NInf = PInf"
| "dbl_neg NaN = NaN"

fun dbl_add :: "dbl \<Rightarrow> dbl \<Rightarrow> dbl" where
  "dbl_add (Fin a) (Fin b) = Fin (a + b)"
| "dbl_add NaN _ = NaN"
| "dbl_add _ NaN = NaN"
| "dbl_add PInf NInf = NaN"
| "dbl_add NInf PInf = NaN"
| "dbl_add PInf _ = PInf"
| "dbl_add NInf _ = NInf"
| "dbl_add (Fin a) PInf = PInf"
| "dbl_add (Fin a) NInf = NInf"

definition dbl_sub :: "dbl \<Rightarrow> dbl \<Rightarrow> dbl" where
  "dbl_sub x y = dbl_add x (dbl_neg y)"

definition inf_of_sign :: "bool \<Rightarrow> dbl" where
  "inf_of_sign positive = (if positive then PInf else NInf)"

fun dbl_mul :: "dbl \<Rightarrow> dbl \<Rightarrow> dbl" where
  "dbl_mul (Fin a) (Fin b) = Fin (a * b)"
| "dbl_mul NaN _ = NaN"
| "dbl_mul _ NaN = NaN"
| "dbl_mul (Fin a) PInf = (if a = 0 then NaN else inf_of_sign (0 < a))"
| "dbl_mul (Fin a) NInf = (if a = 0 then NaN else inf_of_sign (a < 0))"
| "dbl_mul PInf (Fin b) = (if b = 0 then NaN else inf_of_sign (0 < b))"
| "dbl_mul NInf (Fin b) = (if b = 0 then NaN else inf_of_sign (b < 0))"
| "dbl_mul PInf PInf = PInf"
| "dbl_mul PInf NInf = NInf"
| "dbl_mul NInf PInf = NInf"
| "dbl_mul NInf NInf = PInf"

fun dbl_div :: "dbl \<Rightarrow> dbl \<Rightarrow> dbl" where
  "dbl_div (Fin a) (Fin b) =
     (if b = 0 then (if a = 0 then NaN else inf_of_sign (0 < a)) else Fin (a / b))"
| "dbl_div NaN _ = NaN"
| "dbl_div _ NaN = NaN"
| "dbl_div (Fin a) PInf = Fin 0"
| "dbl_div (Fin a) NInf = Fin 0"
| "dbl_div PInf (Fin b) = inf_of_sign (0 \<le> b)"
| "dbl_div NInf (Fin b) = inf_of_sign (b < 0)"
| "dbl_div PInf PInf = NaN"
| "dbl_div PInf NInf = NaN"
| "dbl_div NInf PInf = NaN"
| "dbl_div NInf NInf = NaN"

fun dbl_sqrt :: "dbl \<Rightarrow> dbl" where
  "dbl_sqrt (Fin a) = (if a < 0 then NaN else Fin (sqrt a))"
| "dbl_sqrt PInf = PInf"
| "dbl_sqrt NInf = NaN"
| "dbl_sqrt NaN = NaN"

text \<open>The comparison \<open>==\<close>; \<open>!=\<close> is its negation, also on NaN.\<close>

fun dbl_eq :: "dbl \<Rightarrow> dbl \<Rightarrow> bool" where
  "dbl_eq (Fin a) (Fin b) = (a = b)"
| "dbl_eq (Fin a) PInf = False"
| "dbl_eq (Fin a) NInf = False"
| "dbl_eq PInf (Fin b) = False"
| "dbl_eq PInf PInf = True"
| "dbl_eq PInf NInf = False"
| "dbl_eq NInf (Fin b) = False"
| "dbl_eq NInf PInf = False"
| "dbl_eq NInf NInf = True"
| "dbl_eq NaN y = False"
| "dbl_eq (Fin a) NaN = False"
| "dbl_eq PInf NaN = False"
| "dbl_eq NInf NaN = False"

definition dbl_ne :: "dbl \<Rightarrow> dbl \<Rightarrow> bool" where
  "dbl_ne x y = (\<not> dbl_eq x y)"

text \<open>Conversions from \<open>unsigned char\<close>, \<open>unsigned int\<close> and \<open>int\<close> are exact.\<close>

definition dbl_of_nat :: "nat \<Rightarrow> dbl" where
  "dbl_of_nat n = Fin (real n)"

text \<open>
  The conversion to \<open>int\<close> of \<open>cast<int>()\<close> truncates towards zero; it is undefined
  (\<open>None\<close>) when the truncated value is not an \<open>int\<close> of 32 bits.
\<close>

definition dbl_to_int :: "dbl \<Rightarrow> int option" where
  "dbl_to_int x =
     (case x of
        Fin r \<Rightarrow>
          (let t = (if 0 \<le> r then \<lfloor>r\<rfloor> else \<lceil>r\<rceil>)
           in if - (2 ^ 31) \<le> t \<and> t < 2 ^ 31 then Some t else None)
      | _ \<Rightarrow> None)"

type_synonym vector = "dbl list"
type_synonym matrix = "dbl list list"

section \<open>The variant cache\<close>

text \<open>
  Modelled from the spec: the class \<open>Cache\<close> (cache.hpp) is not among the sources.
  Section 4.4 of the specification gives its contract: \<open>get\<close> returns the vector stored
  for a variant index, if any; \<open>put\<close> stores one, at most one per index; the entries are
  bounded by a budget in bytes, and an insertion that would exceed it evicts the least
  recently used entries until the new entry fits. The constructor takes the number of
  training samples, the number of variants and the budget, as \<open>split_data\<close> calls it.
  The entries are kept most recently used first; a vector of doubles takes 8 bytes per
  entry; a vector larger than the whole budget is not stored.
\<close>

record Cache =
  cache_n :: nat
  cache_nsnps :: nat
  cache_budget :: nat
  cache_entries :: "(nat \<times> vector) list"

definition Cache_new :: "nat \<Rightarrow> nat \<Rightarrow> nat \<Rightarrow> Cache" where
  "Cache_new n m budget =
     \<lparr>cache_n = n, cache_nsnps = m, cache_budget = budget, cache_entries = []\<rparr>"

definition vector_bytes :: "vector \<Rightarrow> nat" where
  "vector_bytes v = 8 * length v"

fun keep_fitting :: "nat \<Rightarrow> (nat \<times> vector) list \<Rightarrow> (nat \<times> vector) list" where
  "keep_fitting avail [] = []"
| "keep_fitting avail (e # es) =
     (if vector_bytes (snd e) \<le> avail
      then e # keep_fitting (avail - vector_bytes (snd e)) es else [])"

definition cache_get :: "Cache \<Rightarrow> nat \<Rightarrow> vector option \<times> Cache" where
  "cache_get c j =
     (case map_of (cache_entries c) j of
        None \<Rightarrow> (None, c)
      | Some v \<Rightarrow>
          (Some v, c\<lparr>cache_entries := (j, v) # filter (\<lambda>e. fst e \<noteq> j) (cache_entries c)\<rparr>))"

definition cache_put :: "Cache \<Rightarrow> nat \<Rightarrow> vector \<Rightarrow> Cache" where
  "cache_put c j v =
     (if cache_budget c < vector_bytes v then c
      else c\<lparr>cache_entries :=
               (j, v) # keep_fitting (cache_budget c - vector_bytes v)
                          (filter (\<lambda>e. fst e \<noteq> j) (cache_entries c))\<rparr>)"

section \<open>The data layer\<close>

text \<open>
  Modelled from the spec: data.hpp is not among the sources, so neither are the values
  of the two modes and of the two covariate actions. They are distinct unsigned values;
  nothing below depends on more than that.
\<close>

definition DATA_MODE_TRAIN :: nat where "DATA_MODE_TRAIN = 1"
definition DATA_MODE_TEST :: nat where "DATA_MODE_TEST = 2"
definition COVAR_ACTION_TRAIN_TEST :: nat where "COVAR_ACTION_TRAIN_TEST = 0"
definition COVAR_ACTION_TRAIN_ONLY :: nat where "COVAR_ACTION_TRAIN_ONLY = 1"

text \<open>
  The fields of the class \<open>Data\<close> that the functions below read or write. A matrix is
  the list of its rows. The memory-mapped file \<open>geno_fin\<close> is \<open>None\<close> while closed, and
  the bytes of the file once mapped; the pointer \<open>cache\<close> is \<open>None\<close> while NULL.
\<close>

record Data =
  N :: nat
  nsnps :: nat
  ncovar :: nat
  np :: nat
  len :: nat
  geno_filename :: string
  geno_fin :: "u8 list option"
  mode :: nat
  Ncurr :: nat
  Ntrain :: nat
  Ntest :: nat
  mask_curr :: "bool list"
  mask_train :: "bool list"
  mask_test :: "bool list"
  ones :: vector
  zeros :: vector
  geno :: vector
  X2 :: matrix
  Y :: matrix
  Ytrain :: matrix
  Ytest :: matrix
  covar_actions :: "nat list"
  cache :: "Cache option"
  cachemem :: nat
  folds :: "int list"
  nfolds :: nat

subsection \<open>Opening the genotype file\<close>

text \<open>
  What \<open>mmap_bed\<close> throws: the failure of boost's \<open>mapped_file_source\<close> when the file
  cannot be mapped, and the \<open>std::runtime_error\<close> with its message.
\<close>

datatype exn = Mapping_failure | Runtime_error string

definition no_sample_size :: string where
  "no_sample_size =
     ''haven'' @ [CHR 0x27] @ ''t read a FAM/PHENO file so don'' @ [CHR 0x27] @
     ''t know what sample size is''"

text \<open>
  \<open>Data::mmap_bed\<close>. The file system is the function \<open>fs\<close> from a path to the bytes of
  the file there, \<open>None\<close> where no file can be mapped. An exception leaves the object as
  it stands when thrown, so the error carries the state. The size of the file is a
  \<open>uintmax_t\<close> of 64 bits, from which the \<open>int\<close> 3 is subtracted; the field \<open>len\<close> is
  declared in data.hpp, so its width \<open>w\<close> in bits is a parameter. \<open>np\<close> is
  \<open>(unsigned int)ceil((double)N / PACK_DENSITY)\<close>, a quotient by 4 that a double holds
  exactly, and \<open>nsnps\<close> is \<open>(unsigned int)(len / np)\<close>.
\<close>

definition mmap_bed ::
  "nat \<Rightarrow> (string \<Rightarrow> u8 list option) \<Rightarrow> Data \<Rightarrow> string \<Rightarrow> (exn \<times> Data) + Data" where
  "mmap_bed w fs st filename =
     (let st1 = st\<lparr>geno_filename := filename\<rparr> in
      case fs filename of
        None \<Rightarrow> Inl (Mapping_failure, st1)
      | Some bytes \<Rightarrow>
          (let st2 = st1\<lparr>geno_fin := Some bytes\<rparr> in
           if N st2 = 0 then Inl (Runtime_error no_sample_size, st2)
           else
             (let l = ((length bytes + 2 ^ 64 - PLINK_OFFSET) mod 2 ^ 64) mod 2 ^ w;
                  st3 = st2\<lparr>len := l\<rparr>;
                  st4 = st3\<lparr>np := uint_wrap (nat \<lceil>real (N st3) / real PACK_DENSITY\<rceil>)\<rparr>
              in Inr (st4\<lparr>nsnps := uint_wrap (len st4 div np st4)\<rparr>))))"

subsection \<open>Modes and coordinates\<close>

text \<open>\<open>Data::set_mode\<close>.\<close>

definition set_mode :: "Data \<Rightarrow> nat \<Rightarrow> Data" where
  "set_mode st m =
     (let st1 = st\<lparr>mode := m\<rparr>;
          st2 = st1\<lparr>Ncurr := (if m = DATA_MODE_TRAIN then Ntrain st1 else Ntest st1)\<rparr>;
          st3 = st2\<lparr>mask_curr :=
                  (if m = DATA_MODE_TRAIN then mask_train st2 else mask_test st2)\<rparr>;
          st4 = st3\<lparr>ones := replicate (Ncurr st3) (Fin 1)\<rparr>
      in st4\<lparr>zeros := replicate (Ncurr st4) (Fin 0)\<rparr>)"

text \<open>
  The bytes of variant \<open>j\<close> in the mapped file, as \<open>load_snp_double\<close> addresses them:
  \<open>np\<close> bytes from \<open>data + PLINK_OFFSET + j * np\<close>, the product being one of two
  \<open>unsigned int\<close>. Reading through a closed mapping or past the end of the file is
  undefined: \<open>None\<close>.
\<close>

definition snp_bytes :: "Data \<Rightarrow> nat \<Rightarrow> u8 list option" where
  "snp_bytes st j =
     (case geno_fin st of
        None \<Rightarrow> None
      | Some bytes \<Rightarrow>
          (let off = PLINK_OFFSET + uint_wrap (j * np st)
           in if off + np st \<le> length bytes then Some (take (np st) (drop off bytes))
              else None))"

text \<open>
  The first loop of \<open>load_snp_double\<close>, over the samples \<open>i < N\<close>: a selected sample's
  code is stored into \<open>geno[k]\<close>, and counted and summed when it is not the sentinel.
  The state of the loop is \<open>(geno, k, ngood, sum)\<close>; the mask is \<open>mask_curr\<close>.
\<close>

definition collect_step ::
  "bool list \<Rightarrow> u8 list \<Rightarrow> nat \<Rightarrow> vector \<times> nat \<times> nat \<times> dbl \<Rightarrow> vector \<times> nat \<times> nat \<times> dbl" where
  "collect_step msk tmp2 i acc =
     (case acc of (g, k, ngood, sum1) \<Rightarrow>
        if msk ! i then
          (let v = dbl_of_nat (unat (tmp2 ! i));
               g1 = g[k := v]
           in if dbl_ne v (dbl_of_nat PLINK_NA)
              then (g1, k + 1, ngood + 1, dbl_add sum1 v)
              else (g1, k + 1, ngood, sum1))
        else acc)"

text \<open>
  The second loop, \<open>for(i = Ncurr - 1 ; i != -1 ; --i)\<close>: the index is unsigned, so the
  loop runs from \<open>Ncurr - 1\<close> down to 0, and not at all when \<open>Ncurr\<close> is 0.
\<close>

definition sum2_step :: "vector \<Rightarrow> dbl \<Rightarrow> nat \<Rightarrow> dbl \<Rightarrow> dbl" where
  "sum2_step g mean i sum2 =
     (let v = g ! i
      in if dbl_ne v (dbl_of_nat PLINK_NA)
         then (let v1 = dbl_sub v mean in dbl_add sum2 (dbl_mul v1 v1))
         else sum2)"

text \<open>The two final loops: the branch \<open>ngood == Ncurr\<close>, and the branch that imputes.\<close>

definition standardise_all :: "nat \<Rightarrow> dbl \<Rightarrow> dbl \<Rightarrow> vector \<Rightarrow> vector" where
  "standardise_all n mean sd g =
     fold (\<lambda>i g. g[i := dbl_div (dbl_sub (g ! i) mean) sd]) (rev [0..<n]) g"

definition standardise_impute :: "nat \<Rightarrow> dbl \<Rightarrow> dbl \<Rightarrow> dbl \<Rightarrow> vector \<Rightarrow> vector" where
  "standardise_impute n mean sd mean_sd g =
     fold (\<lambda>i g. let v = g ! i
                 in if dbl_eq v (dbl_of_nat PLINK_NA) then g[i := mean_sd]
                    else g[i := dbl_div (dbl_sub v mean) sd])
          (rev [0..<n]) g"

text \<open>
  \<open>Data::load_snp_double\<close>, on the buffer \<open>geno\<close> of \<open>Ncurr\<close> doubles that \<open>load_snp\<close>
  passes. The scratch buffer \<open>tmp2\<close> has \<open>np * PACK_DENSITY\<close> bytes, a product of
  \<open>unsigned int\<close>, all of which \<open>decode_plink\<close> writes. Undefined behaviour is
  \<open>None\<close>: the mapped file is read out of range, a sample \<open>i < N\<close> has no entry in the
  mask or in \<open>tmp2\<close>, or the mask does not select \<open>Ncurr\<close> samples (then the first
  loop writes past the buffer, or the later loops read cells that were never written).
  \<open>ngood - 1\<close> is a subtraction of \<open>unsigned int\<close>.
\<close>

definition load_snp_double :: "Data \<Rightarrow> nat \<Rightarrow> vector \<Rightarrow> vector option" where
  "load_snp_double st j geno0 =
     (case snp_bytes st j of
        None \<Rightarrow> None
      | Some packed \<Rightarrow>
          if length (mask_curr st) < N st \<or> uint_wrap (np st * PACK_DENSITY) < N st then None
          else
            (let tmp2 = decode_plink (replicate (uint_wrap (np st * PACK_DENSITY)) 0)
                          packed (np st)
             in case fold (collect_step (mask_curr st) tmp2) [0..<N st] (geno0, 0, 0, Fin 0) of
                  (g, k, ngood, sum1) \<Rightarrow>
                    if k \<noteq> Ncurr st then None
                    else
                      (let mean = dbl_div sum1 (dbl_of_nat k);
                           sum2 = fold (sum2_step g mean) (rev [0..<Ncurr st]) (Fin 0);
                           sd = dbl_sqrt (dbl_div sum2 (dbl_of_nat (uint_wrap (ngood + 2 ^ 32 - 1))));
                           mean_sd = dbl_div mean sd
                       in if ngood = Ncurr st
                          then Some (standardise_all (Ncurr st) mean sd g)
                          else Some (standardise_impute (Ncurr st) mean sd mean_sd g))))"

text \<open>
  \<open>Data::load_snp\<close>: the buffer is an array of \<open>Ncurr\<close> doubles on the stack. Every cell
  is written before it is read whenever \<open>load_snp_double\<close> returns, so what the cells
  hold at first does not show.
\<close>

definition load_snp :: "Data \<Rightarrow> nat \<Rightarrow> vector option" where
  "load_snp st j = load_snp_double st j (replicate (Ncurr st) (Fin 0))"

text \<open>
  \<open>Data::get_snp\<close>. It returns the vector and leaves it in the field \<open>geno\<close>; in training
  mode it goes through the cache, which a hit and an insertion both change.
  Dereferencing the NULL cache is undefined: \<open>None\<close>.
\<close>

definition get_snp :: "Data \<Rightarrow> nat \<Rightarrow> (vector \<times> Data) option" where
  "get_snp st j =
     (if mode st = DATA_MODE_TRAIN then
        (case cache st of
           None \<Rightarrow> None
         | Some c \<Rightarrow>
             (case cache_get c j of
                (Some v, c1) \<Rightarrow> Some (v, st\<lparr>geno := v, cache := Some c1\<rparr>)
              | (None, c1) \<Rightarrow>
                  (case load_snp st j of
                     None \<Rightarrow> None
                   | Some v \<Rightarrow> Some (v, st\<lparr>geno := v, cache := Some (cache_put c1 j v)\<rparr>))))
      else
        (case load_snp st j of
           None \<Rightarrow> None
         | Some v \<Rightarrow> Some (v, st\<lparr>geno := v\<rparr>)))"

text \<open>
  The loop of \<open>get_coordinate\<close> that copies column \<open>cidx\<close> of the covariates, for the
  samples of the current mask, into a vector \<open>x\<close> of \<open>Ncurr\<close> entries. The state of the
  loop is \<open>(x, k)\<close>.
\<close>

definition covar_step :: "bool list \<Rightarrow> matrix \<Rightarrow> nat \<Rightarrow> nat \<Rightarrow> vector \<times> nat \<Rightarrow> vector \<times> nat" where
  "covar_step msk m cidx i acc =
     (case acc of (x, k) \<Rightarrow> if msk ! i then (x[k := m ! i ! cidx], k + 1) else acc)"

text \<open>
  \<open>Data::get_coordinate\<close>. Undefined behaviour is \<open>None\<close>: an action or an entry of the
  covariate matrix read out of range, a sample without an entry in the mask, or a mask
  that does not select \<open>Ncurr\<close> samples.
\<close>

definition get_coordinate :: "Data \<Rightarrow> nat \<Rightarrow> (vector \<times> Data) option" where
  "get_coordinate st j =
     (if j = 0 then Some (ones st, st)
      else if j \<le> nsnps st then get_snp st (j - 1)
      else
        (let cidx = j - nsnps st - 1 in
         if mode st = DATA_MODE_TEST \<and> length (covar_actions st) \<le> cidx then None
         else if mode st = DATA_MODE_TEST \<and> covar_actions st ! cidx = COVAR_ACTION_TRAIN_ONLY
         then Some (zeros st, st)
         else if length (mask_curr st) < N st \<or> length (X2 st) < N st
                 \<or> \<not> list_all (\<lambda>row. cidx < length row) (take (N st) (X2 st))
         then None
         else
           (case fold (covar_step (mask_curr st) (X2 st) cidx) [0..<N st]
                   (replicate (Ncurr st) (Fin 0), 0) of
              (x, k) \<Rightarrow> if k \<noteq> Ncurr st then None else Some (x, st))))"

subsection \<open>Folds\<close>

text \<open>
  The loop of \<open>split_data\<close> that copies the rows of \<open>Y\<close> into \<open>Ytrain\<close> and \<open>Ytest\<close>. The
  state of the loop is \<open>(Ytrain, Ytest, itrain, itest)\<close>.
\<close>

definition split_step ::
  "bool list \<Rightarrow> matrix \<Rightarrow> nat \<Rightarrow> matrix \<times> matrix \<times> nat \<times> nat \<Rightarrow> matrix \<times> matrix \<times> nat \<times> nat" where
  "split_step msk m r acc =
     (case acc of (tr, te, itrain, itest) \<Rightarrow>
        if msk ! r then (tr[itrain := m ! r], te, itrain + 1, itest)
        else (tr, te[itest := m ! r], itrain, itest + 1))"

definition matrix_cols :: "matrix \<Rightarrow> nat" where
  "matrix_cols m = (case m of [] \<Rightarrow> 0 | row # _ \<Rightarrow> length row)"

definition matrix_zero :: "nat \<Rightarrow> nat \<Rightarrow> matrix" where
  "matrix_zero r c = replicate r (replicate c (Fin 0))"

text \<open>
  \<open>Data::split_data\<close>. The comparison of the fold ids with \<open>fold\<close> is one of \<open>int\<close>;
  \<open>Ntrain = N - Ntest\<close> is a subtraction of \<open>unsigned int\<close>. The old cache is deleted
  and a new one constructed. The loop reads the mask and the rows of \<open>Y\<close> for each of
  the \<open>N\<close> samples and writes a row of \<open>Ytrain\<close> or \<open>Ytest\<close> for each: the call is
  defined when there are \<open>N\<close> fold ids and \<open>N\<close> rows of \<open>Y\<close>.
\<close>

definition split_data :: "Data \<Rightarrow> nat \<Rightarrow> Data" where
  "split_data st fold_id =
     (let st1 = st\<lparr>mask_test := map (\<lambda>f. f = int_of_uint fold_id) (folds st)\<rparr>;
          st2 = st1\<lparr>mask_train := map (\<lambda>f. f \<noteq> int_of_uint fold_id) (folds st1)\<rparr>;
          st3 = st2\<lparr>Ntest := length (filter id (mask_test st2))\<rparr>;
          st4 = st3\<lparr>Ntrain := uint_wrap (N st3 + 2 ^ 32 - Ntest st3)\<rparr>;
          tr0 = matrix_zero (Ntrain st4) (matrix_cols (Y st4));
          te0 = matrix_zero (Ntest st4) (matrix_cols (Y st4))
      in case fold (split_step (mask_train st4) (Y st4)) [0..<N st4] (tr0, te0, 0, 0) of
           (tr, te, itrain, itest) \<Rightarrow>
             st4\<lparr>Ytrain := tr, Ytest := te,
                 cache := Some (Cache_new (Ntrain st4) (nsnps st4) (cachemem st4))\<rparr>)"

text \<open>
  \<open>Data::make_folds\<close>, given the draw \<open>f\<close> of \<open>VectorXd::Random(N)\<close>, a vector of \<open>N\<close>
  values from -1 to 1: the fold of a sample is \<open>(f + 1.0) / 2.0 * nfolds\<close>, converted
  to \<open>int\<close>. A vector of another length is not a draw, and a conversion that is
  undefined makes the call undefined: \<open>None\<close>. The file of fold ids that the function
  also writes is not part of the state.
\<close>

definition fold_of :: "nat \<Rightarrow> dbl \<Rightarrow> int option" where
  "fold_of k x =
     dbl_to_int (dbl_mul (dbl_div (dbl_add x (Fin 1)) (Fin 2)) (dbl_of_nat k))"

fun those_ints :: "int option list \<Rightarrow> int list option" where
  "those_ints [] = Some []"
| "those_ints (None # _) = None"
| "those_ints (Some i # xs) = (case those_ints xs of None \<Rightarrow> None | Some is \<Rightarrow> Some (i # is))"

definition make_folds :: "Data \<Rightarrow> vector \<Rightarrow> Data option" where
  "make_folds st f =
     (if length f \<noteq> N st then None
      else case those_ints (map (fold_of (nfolds st)) f) of
             None \<Rightarrow> None
           | Some ids \<Rightarrow> Some (st\<lparr>folds := ids\<rparr>))"

section \<open>The standardiser as the specification words it\<close>

text \<open>
  The samples that a mask selects among the first \<open>n\<close>, in index order; the code of
  sample \<open>i\<close> of a packed variant by the rule of the specification; the codes that are
  not the missing sentinel.
\<close>

definition selected :: "nat \<Rightarrow> bool list \<Rightarrow> nat list" where
  "selected n msk = filter (\<lambda>i. msk ! i) [0..<n]"

definition sample_code :: "u8 list \<Rightarrow> nat \<Rightarrow> nat" where
  "sample_code packed i =
     spec_dosage (two_bit_group (packed ! (i div PACK_DENSITY)) (i mod PACK_DENSITY))"

definition selected_codes :: "nat \<Rightarrow> bool list \<Rightarrow> u8 list \<Rightarrow> nat list" where
  "selected_codes n msk packed = map (sample_code packed) (selected n msk)"

definition non_missing :: "nat list \<Rightarrow> nat list" where
  "non_missing vs = filter (\<lambda>v. v \<noteq> PLINK_NA) vs"

text \<open>
  Section 4.3 of the specification, on the codes \<open>vs\<close> of the selected samples: the mean
  is the sum of the non-missing codes over the number of selected samples; the standard
  deviation is taken over the non-missing codes, with one less than their number as
  the denominator; a non-missing sample becomes \<open>(v - mean) / sd\<close> and a missing one
  \<open>mean / sd\<close>.
\<close>

definition spec_mean :: "nat list \<Rightarrow> real" where
  "spec_mean vs = real (sum_list (non_missing vs)) / real (length vs)"

definition spec_sd :: "nat list \<Rightarrow> real" where
  "spec_sd vs =
     sqrt ((\<Sum>v\<leftarrow>non_missing vs. (real v - spec_mean vs)\<^sup>2)
             / real (length (non_missing vs) - 1))"

definition spec_standardise :: "nat list \<Rightarrow> vector" where
  "spec_standardise vs =
     map (\<lambda>v. if v = PLINK_NA then dbl_div (Fin (spec_mean vs)) (Fin (spec_sd vs))
               else dbl_div (Fin (real v - spec_mean vs)) (Fin (spec_sd vs))) vs"

section \<open>A small data set\<close>

text \<open>
  A genotype file of four samples and three variants: the three bytes of header, then
  one byte per variant. The first variant has the dosages 0, 1, 2, 2; the second 1, 2,
  missing, 2; the third is missing in every sample. One covariate, used in training
  only. The fold ids put the last sample into fold 0 and the others into fold 1.
\<close>

definition demo_bed :: "u8 list" where
  "demo_bed = [108, 27, 1, 11, 18, 85]"

definition demo_fs :: "string \<Rightarrow> u8 list option" where
  "demo_fs path = (if path = ''demo.bed'' then Some demo_bed else None)"

definition demo_data :: Data where
  "demo_data =
     \<lparr>N = 4, nsnps = 3, ncovar = 1, np = 1, len = 3,
      geno_filename = ''demo.bed'', geno_fin = Some demo_bed,
      mode = DATA_MODE_TRAIN, Ncurr = 0, Ntrain = 0, Ntest = 0,
      mask_curr = [], mask_train = [], mask_test = [],
      ones = [], zeros = [], geno = [],
      X2 = [[Fin 1], [Fin 2], [Fin 3], [Fin 4]],
      Y = [[Fin 1], [Fin (- 1)], [Fin 1], [Fin (- 1)]],
      Ytrain = [], Ytest = [],
      covar_actions = [COVAR_ACTION_TRAIN_ONLY],
      cache = None, cachemem = 1024,
      folds = [1, 1, 1, 0], nfolds = 2\<rparr>"

definition demo_train :: Data where
  "demo_train = set_mode (split_data demo_data 0) DATA_MODE_TRAIN"

definition demo_test :: Data where
  "demo_test = set_mode (split_data demo_data 1) DATA_MODE_TEST"

text \<open>
  The same object before the genotype file is opened and before a sample file has been
  read, so that the sample count is still 0; and with a sample count of 5, for which a
  variant takes two bytes.
\<close>

definition demo_unopened :: Data where
  "demo_unopened =
     demo_data\<lparr>N := 0, nsnps := 0, np := 0, len := 0, geno_filename := [], geno_fin := None\<rparr>"

definition demo_five :: Data where
  "demo_five = demo_unopened\<lparr>N := 5\<rparr>"



section \<open>The states in which coordinates are requested\<close>

text \<open>
  What \<open>set_mode\<close> after \<open>split_data\<close> establishes and a request keeps: the vectors of
  ones and zeros have \<open>Ncurr\<close> entries, which in test mode is \<open>Ntest\<close>; the current
  mask has an entry for each sample and selects \<open>Ncurr\<close> of them; the covariate matrix
  has a row for each sample and \<open>ncovar\<close> columns, each with its action. The cache is
  coherent when, in training mode, it exists and each of its entries is what
  \<open>load_snp\<close> computes for its index in the current state.
\<close>

definition coordinates_ready :: "Data \<Rightarrow> bool" where
  "coordinates_ready st \<longleftrightarrow>
     ones st = replicate (Ncurr st) (Fin 1) \<and>
     zeros st = replicate (Ncurr st) (Fin 0) \<and>
     (mode st = DATA_MODE_TEST \<longrightarrow> Ncurr st = Ntest st) \<and>
     length (mask_curr st) = N st \<and>
     length (selected (N st) (mask_curr st)) = Ncurr st \<and>
     length (X2 st) = N st \<and>
     list_all (\<lambda>row. length row = ncovar st) (X2 st) \<and>
     length (covar_actions st) = ncovar st"

definition cache_coherent :: "Data \<Rightarrow> bool" where
  "cache_coherent st \<longleftrightarrow>
     (mode st = DATA_MODE_TRAIN \<longrightarrow>
        (case cache st of
           None \<Rightarrow> False
         | Some c \<Rightarrow> list_all (\<lambda>e. load_snp st (fst e) = Some (snd e)) (cache_entries c)))"

section \<open>Properties of the decoder\<close>

lemma mask0_conv: "MASK0 = mask 2"
  by (simp add: MASK0_def mask_eq_exp_minus_1)

lemma mask1_conv: "MASK1 = push_bit 2 (mask 2)"
  by (simp add: MASK1_def mask_eq_exp_minus_1 push_bit_eq_mult)

lemma mask2_conv: "MASK2 = push_bit 4 (mask 2)"
  by (simp add: MASK2_def mask_eq_exp_minus_1 push_bit_eq_mult)

lemma mask3_conv: "MASK3 = push_bit 6 (mask 2)"
  by (simp add: MASK3_def mask_eq_exp_minus_1 push_bit_eq_mult)

lemma shifted_group:
  "drop_bit s (b AND push_bit s (mask 2)) = take_bit 2 (drop_bit s b)" for b :: u8
  by (rule bit_eqI) (auto simp add: bit_simps dest: bit_imp_le_length)

lemma unat_group:
  "unat (take_bit 2 (drop_bit s b)) = (unat b div 2 ^ s) mod 4" for b :: u8
proof -
  have "unat (take_bit 2 (drop_bit s b)) = take_bit 2 (unat (drop_bit s b))"
    by (simp only: unsigned_take_bit_eq)
  also have "\<dots> = take_bit 2 (drop_bit s (unat b))"
    by (simp only: unat_drop_bit_eq)
  also have "\<dots> = (unat b div 2 ^ s) mod 4"
    by (simp add: take_bit_eq_mod drop_bit_eq_div)
  finally show ?thesis .
qed

lemma two_bit_cases:
  "unat w < 4 \<Longrightarrow> w = 0 \<or> w = 1 \<or> w = 2 \<or> w = 3" for w :: u8
proof -
  assume "unat w < 4"
  then have "unat w = 0 \<or> unat w = 1 \<or> unat w = 2 \<or> unat w = 3" by arith
  then show ?thesis
    by (auto simp add: word_unat_eq_iff)
qed

lemma genotype_spec:
  "unat w < 4 \<Longrightarrow> unat (genotype w) = spec_dosage (unat w)" for w :: u8
  using two_bit_cases [of w]
  by (auto simp add: genotype_def spec_dosage_def PLINK_NA_def bit_0)

lemma genotype_group:
  "unat (genotype (take_bit 2 (drop_bit s b))) = spec_dosage ((unat b div 2 ^ s) mod 4)"
proof -
  have "unat (take_bit 2 (drop_bit s b)) < 4"
    by (simp add: unat_group)
  then show ?thesis
    using genotype_spec [of "take_bit 2 (drop_bit s b)"] by (simp add: unat_group)
qed

lemma genotype_group0:
  "unat (genotype (b AND MASK0)) = spec_dosage (two_bit_group b 0)"
  using genotype_group [of 0 b]
  by (simp add: mask0_conv two_bit_group_def take_bit_eq_mask)

lemma genotype_group1:
  "unat (genotype (drop_bit 2 (b AND MASK1))) = spec_dosage (two_bit_group b 1)"
  using genotype_group [of 2 b]
  unfolding mask1_conv shifted_group by (simp add: two_bit_group_def)

lemma genotype_group2:
  "unat (genotype (drop_bit 4 (b AND MASK2))) = spec_dosage (two_bit_group b 2)"
  using genotype_group [of 4 b]
  unfolding mask2_conv shifted_group by (simp add: two_bit_group_def)

lemma genotype_group3:
  "unat (genotype (drop_bit 6 (b AND MASK3))) = spec_dosage (two_bit_group b 3)"
  using genotype_group [of 6 b]
  unfolding mask3_conv shifted_group by (simp add: two_bit_group_def)

lemma decode_step_length: "length (decode_step inp i out) = length out"
  by (simp add: decode_step_def Let_def)

lemma decode_step_nth:
  assumes "i < 2 ^ 30" and "PACK_DENSITY * i + 3 < length out"
  shows "decode_step inp i out ! k =
     (if k = PACK_DENSITY * i then genotype (inp ! i AND MASK0)
      else if k = PACK_DENSITY * i + 1 then genotype (drop_bit 2 (inp ! i AND MASK1))
      else if k = PACK_DENSITY * i + 2 then genotype (drop_bit 4 (inp ! i AND MASK2))
      else if k = PACK_DENSITY * i + 3 then genotype (drop_bit 6 (inp ! i AND MASK3))
      else out ! k)"
proof -
  have w: "uint_wrap (4 * i) = 4 * i" "uint_wrap (4 * i + 1) = 4 * i + 1"
    "uint_wrap (4 * i + 2) = 4 * i + 2" "uint_wrap (4 * i + 3) = 4 * i + 3"
    using assms(1) by (simp_all add: uint_wrap_def)
  have "uint_wrap (Suc (4 * i)) = Suc (4 * i)" "uint_wrap (Suc (Suc (4 * i))) = Suc (Suc (4 * i))"
     "uint_wrap (Suc (Suc (Suc (4 * i)))) = Suc (Suc (Suc (4 * i)))"
    using assms(1) by (simp_all add: uint_wrap_def)
  with w show ?thesis
    using assms(2) by (simp add: decode_step_def Let_def PACK_DENSITY_def nth_list_update)
qed

lemma decode_plink_Suc:
  "decode_plink out inp (Suc n) = decode_step inp n (decode_plink out inp n)"
  by (simp add: decode_plink_def)

lemma decode_plink_length: "length (decode_plink out inp n) = length out"
  by (induction n) (simp_all add: decode_plink_Suc decode_step_length, simp add: decode_plink_def)

lemma decode_plink_frame:
  "n \<le> 2 ^ 30 \<Longrightarrow> PACK_DENSITY * n \<le> length out \<Longrightarrow> PACK_DENSITY * n \<le> k \<Longrightarrow>
   decode_plink out inp n ! k = out ! k"
proof (induction n)
  case 0
  then show ?case by (simp add: decode_plink_def)
next
  case (Suc n)
  have "decode_step inp n (decode_plink out inp n) ! k = decode_plink out inp n ! k"
    using Suc.prems
    by (subst decode_step_nth) (simp_all add: decode_plink_length PACK_DENSITY_def)
  with Suc show ?case by (simp add: decode_plink_Suc PACK_DENSITY_def)
qed

lemma decode_plink_nth:
  "n \<le> 2 ^ 30 \<Longrightarrow> PACK_DENSITY * n \<le> length out \<Longrightarrow> i < n \<Longrightarrow> g < 4 \<Longrightarrow>
   unat (decode_plink out inp n ! (PACK_DENSITY * i + g)) = spec_dosage (two_bit_group (inp ! i) g)"
proof (induction n)
  case 0
  then show ?case by simp
next
  case (Suc n)
  have g: "g = 0 \<or> g = 1 \<or> g = 2 \<or> g = 3" using Suc.prems by arith
  have bounds: "n < 2 ^ 30" "PACK_DENSITY * n + 3 < length (decode_plink out inp n)"
    using Suc.prems by (simp_all add: decode_plink_length PACK_DENSITY_def)
  show ?case
  proof (cases "i = n")
    case True
    with g show ?thesis
      unfolding decode_plink_Suc decode_step_nth [OF bounds]
      by (auto simp add: PACK_DENSITY_def genotype_group0 genotype_group1
          genotype_group2 genotype_group3 simp del: drop_bit_and)
  next
    case False
    then have "i < n" using Suc.prems by simp
    then have "PACK_DENSITY * i + g < PACK_DENSITY * n" using g by (auto simp add: PACK_DENSITY_def)
    then have "decode_step inp n (decode_plink out inp n) ! (PACK_DENSITY * i + g)
        = decode_plink out inp n ! (PACK_DENSITY * i + g)"
      unfolding decode_step_nth [OF bounds] by simp
    with Suc \<open>i < n\<close> show ?thesis by (simp add: decode_plink_Suc)
  qed
qed

text \<open>
  Claim C1. For every input byte, the decoder writes exactly four codes, one for each
  2-bit group of the byte taken low to high, and each code is the one that the rule of
  the specification gives for its group: the missing sentinel for the pattern 01, the
  dosage \<open>a1 + a2\<close> otherwise. The cells of the output buffer beyond the \<open>4 * n\<close>
  decoded ones are left as they were. The buffers are as large as the call says, and
  the index \<open>k\<close> stays an \<open>unsigned int\<close>.
\<close>

theorem decode_plink_correct:
  assumes "n \<le> length inp" and "PACK_DENSITY * n \<le> length out" and "n \<le> 2 ^ 30"
  shows "length (decode_plink out inp n) = length out \<and>
    (\<forall>i<n. \<forall>g<4. unat (decode_plink out inp n ! (PACK_DENSITY * i + g))
        = spec_dosage (two_bit_group (inp ! i) g)) \<and>
    (\<forall>k\<ge>PACK_DENSITY * n. decode_plink out inp n ! k = out ! k)"
  using assms by (simp add: decode_plink_length decode_plink_nth decode_plink_frame)

theorem decode_plink_correct_witness:
  "(1::nat) \<le> length [18 :: u8] \<and> PACK_DENSITY * 1 \<le> length [0, 0, 0, 0 :: u8] \<and> (1::nat) \<le> 2 ^ 30 \<and>
   length (decode_plink [0, 0, 0, 0] [18] 1) = 4 \<and>
   map unat (decode_plink [0, 0, 0, 0] [18] 1) = [1, 2, PLINK_NA, 2] \<and>
   unat (decode_plink [0, 0, 0, 0] [18] 1 ! (PACK_DENSITY * 0 + 2)) = spec_dosage (two_bit_group ([18] ! 0) 2)"
proof -
  have h: "(1::nat) \<le> length [18 :: u8]" "PACK_DENSITY * 1 \<le> length [0, 0, 0, 0 :: u8]"
    "(1::nat) \<le> 2 ^ 30"
    by (simp_all add: PACK_DENSITY_def)
  have v: "map unat (decode_plink [0, 0, 0, 0] [18] 1) = [1, 2, PLINK_NA, 2]"
    by (simp add: decode_plink_def decode_step_def uint_wrap_def PACK_DENSITY_def PLINK_NA_def
        genotype_def MASK0_def MASK1_def MASK2_def MASK3_def)
  from decode_plink_correct [OF h]
  have l: "length (decode_plink [0, 0, 0, 0] [18] 1) = length [0, 0, 0, 0 :: u8]"
    and a: "\<And>i g. i < 1 \<Longrightarrow> g < 4 \<Longrightarrow>
      unat (decode_plink [0, 0, 0, 0] [18] 1 ! (PACK_DENSITY * i + g))
        = spec_dosage (two_bit_group ([18] ! i) g)"
    by blast+
  have "unat (decode_plink [0, 0, 0, 0] [18] 1 ! (PACK_DENSITY * 0 + 2))
      = spec_dosage (two_bit_group ([18] ! 0) 2)"
    by (rule a) simp_all
  with h v l show ?thesis by simp
qed

section \<open>Properties of the standardiser\<close>

lemma rev_upt_Suc: "rev [0..<Suc n] = n # rev [0..<n]"
  by simp

lemma fold_update_down:
  "n \<le> length g \<Longrightarrow>
   fold (\<lambda>i g. g[i := f (g ! i)]) (rev [0..<n]) g = map f (take n g) @ drop n g"
proof (induction n arbitrary: g)
  case 0
  then show ?case by simp
next
  case (Suc n)
  then have n: "n < length g" by simp
  have "fold (\<lambda>i g. g[i := f (g ! i)]) (rev [0..<Suc n]) g
      = fold (\<lambda>i g. g[i := f (g ! i)]) (rev [0..<n]) (g[n := f (g ! n)])"
    by (simp only: rev_upt_Suc fold_simps)
  also have "\<dots> = map f (take n (g[n := f (g ! n)])) @ drop n (g[n := f (g ! n)])"
    using n by (intro Suc.IH) simp
  also have "\<dots> = map f (take n g) @ f (g ! n) # drop (Suc n) g"
    using n by (simp add: drop_update_swap flip: Cons_nth_drop_Suc)
  also have "\<dots> = map f (take (Suc n) g) @ drop (Suc n) g"
    using n by (simp add: take_Suc_conv_app_nth)
  finally show ?case .
qed

lemma standardise_all_map:
  "length g = n \<Longrightarrow> standardise_all n mean sd g = map (\<lambda>v. dbl_div (dbl_sub v mean) sd) g"
  unfolding standardise_all_def
  by (subst fold_update_down [where f = "\<lambda>v. dbl_div (dbl_sub v mean) sd"]) simp_all

lemma impute_fun:
  "(\<lambda>i g. let v = g ! i
            in if dbl_eq v (dbl_of_nat PLINK_NA) then g[i := mean_sd]
               else g[i := dbl_div (dbl_sub v mean) sd])
   = (\<lambda>i g. g[i := (\<lambda>v. if dbl_eq v (dbl_of_nat PLINK_NA) then mean_sd
                           else dbl_div (dbl_sub v mean) sd) (g ! i)])"
  by (intro ext) (simp add: Let_def)

lemma standardise_impute_map:
  "length g = n \<Longrightarrow> standardise_impute n mean sd mean_sd g =
     map (\<lambda>v. if dbl_eq v (dbl_of_nat PLINK_NA) then mean_sd
               else dbl_div (dbl_sub v mean) sd) g"
  unfolding standardise_impute_def impute_fun
  by (subst fold_update_down) simp_all

text \<open>
  Claim C10. On a buffer in which no selected sample is missing, the loop of the branch
  \<open>ngood == Ncurr\<close> and the loop of the general branch, which tests every entry for
  the sentinel, leave the same vector: each entry \<open>v\<close> becomes \<open>(v - mean) / sd\<close>,
  whatever the mean, the deviation and the value kept for imputation are.
\<close>

theorem fast_path_refines_general:
  assumes "length g = n" and "\<forall>v\<in>set g. dbl_ne v (dbl_of_nat PLINK_NA)"
  shows "standardise_all n mean sd g = standardise_impute n mean sd mean_sd g \<and>
         standardise_all n mean sd g = map (\<lambda>v. dbl_div (dbl_sub v mean) sd) g"
  using assms by (simp add: standardise_all_map standardise_impute_map dbl_ne_def)

lemma selected_Suc:
  "selected (Suc n) msk = (if msk ! n then selected n msk @ [n] else selected n msk)"
  by (simp add: selected_def)

lemma length_selected_mono: "length (selected n msk) \<le> length (selected (Suc n) msk)"
  by (simp add: selected_Suc)

lemma dbl_ne_of_nat [simp]: "dbl_ne (dbl_of_nat a) (dbl_of_nat b) \<longleftrightarrow> a \<noteq> b"
  by (simp add: dbl_ne_def dbl_of_nat_def)

lemma dbl_eq_of_nat [simp]: "dbl_eq (dbl_of_nat a) (dbl_of_nat b) \<longleftrightarrow> a = b"
  by (simp add: dbl_of_nat_def)

lemma dbl_add_of_nat: "dbl_add (dbl_of_nat a) (dbl_of_nat b) = dbl_of_nat (a + b)"
  by (simp add: dbl_of_nat_def)

lemma Fin_0_of_nat: "Fin 0 = dbl_of_nat 0"
  by (simp add: dbl_of_nat_def)

lemma collect_loop:
  "length (selected n msk) \<le> length g0 \<Longrightarrow>
   fold (collect_step msk tmp2) [0..<n] (g0, 0, 0, Fin 0) =
     (map dbl_of_nat (map (\<lambda>i. unat (tmp2 ! i)) (selected n msk))
        @ drop (length (selected n msk)) g0,
      length (selected n msk),
      length (non_missing (map (\<lambda>i. unat (tmp2 ! i)) (selected n msk))),
      dbl_of_nat (sum_list (non_missing (map (\<lambda>i. unat (tmp2 ! i)) (selected n msk)))))"
proof (induction n)
  case 0
  then show ?case by (simp add: selected_def non_missing_def Fin_0_of_nat)
next
  case (Suc n)
  have le: "length (selected n msk) \<le> length g0"
    using Suc.prems length_selected_mono [of n msk] by simp
  note IH = Suc.IH [OF le]
  show ?case
  proof (cases "msk ! n")
    case False
    then show ?thesis using IH by (simp add: selected_Suc collect_step_def)
  next
    case True
    then have lt: "length (selected n msk) < length g0"
      using Suc.prems by (simp add: selected_Suc)
    have upd: "(xs @ drop (length (selected n msk)) g0)[length (selected n msk) := v]
        = xs @ [v] @ drop (Suc (length (selected n msk))) g0"
      if "length xs = length (selected n msk)" for xs v
      using that lt by (simp add: list_update_append upd_conv_take_nth_drop)
    show ?thesis
      using True IH
      by (simp add: selected_Suc collect_step_def Let_def upd non_missing_def dbl_add_of_nat)
  qed
qed

lemma sum2_loop:
  "n \<le> length vs \<Longrightarrow>
   fold (sum2_step (map dbl_of_nat vs) (Fin m)) (rev [0..<n]) (Fin a) =
     Fin (a + (\<Sum>v\<leftarrow>non_missing (take n vs). (real v - m)\<^sup>2))"
proof (induction n arbitrary: a)
  case 0
  then show ?case by (simp add: non_missing_def)
next
  case (Suc n)
  then have n: "n < length vs" by simp
  have step: "sum2_step (map dbl_of_nat vs) (Fin m) n (Fin a) =
      Fin (if vs ! n \<noteq> PLINK_NA then a + (real (vs ! n) - m)\<^sup>2 else a)"
    using n by (simp add: sum2_step_def Let_def dbl_sub_def dbl_of_nat_def dbl_ne_def
        power2_eq_square)
  have "fold (sum2_step (map dbl_of_nat vs) (Fin m)) (rev [0..<Suc n]) (Fin a)
      = fold (sum2_step (map dbl_of_nat vs) (Fin m)) (rev [0..<n])
          (Fin (if vs ! n \<noteq> PLINK_NA then a + (real (vs ! n) - m)\<^sup>2 else a))"
    by (simp only: rev_upt_Suc fold_simps step)
  also have "\<dots> = Fin ((if vs ! n \<noteq> PLINK_NA then a + (real (vs ! n) - m)\<^sup>2 else a)
      + (\<Sum>v\<leftarrow>non_missing (take n vs). (real v - m)\<^sup>2))"
    using n by (intro Suc.IH) simp
  also have "\<dots> = Fin (a + (\<Sum>v\<leftarrow>non_missing (take (Suc n) vs). (real v - m)\<^sup>2))"
    using n by (simp add: take_Suc_conv_app_nth non_missing_def)
  finally show ?case .
qed

lemma decoded_sample:
  assumes "i < np0 * PACK_DENSITY" and "np0 \<le> 2 ^ 30"
  shows "unat (decode_plink (replicate (np0 * PACK_DENSITY) 0) packed np0 ! i)
       = sample_code packed i"
proof -
  have "unat (decode_plink (replicate (np0 * PACK_DENSITY) 0) packed np0
          ! (PACK_DENSITY * (i div PACK_DENSITY) + i mod PACK_DENSITY))
      = spec_dosage (two_bit_group (packed ! (i div PACK_DENSITY)) (i mod PACK_DENSITY))"
    using assms by (intro decode_plink_nth) (simp_all add: PACK_DENSITY_def less_mult_imp_div_less)
  then show ?thesis by (simp add: sample_code_def)
qed

lemma selected_less: "i \<in> set (selected n msk) \<Longrightarrow> i < n"
  by (simp add: selected_def)

lemma decoded_selected:
  assumes "n \<le> np0 * PACK_DENSITY" and "np0 \<le> 2 ^ 30"
  shows "map (\<lambda>i. unat (decode_plink (replicate (np0 * PACK_DENSITY) 0) packed np0 ! i))
           (selected n msk) = selected_codes n msk packed"
  unfolding selected_codes_def
proof (rule map_cong [OF refl])
  fix i assume "i \<in> set (selected n msk)"
  then have "i < np0 * PACK_DENSITY" using selected_less assms(1) by fastforce
  then show "unat (decode_plink (replicate (np0 * PACK_DENSITY) 0) packed np0 ! i)
      = sample_code packed i"
    using assms(2) by (rule decoded_sample)
qed

text \<open>What the function computes up to the two final loops.\<close>

lemma load_snp_double_unfold:
  assumes bytes: "snp_bytes st j = Some packed"
    and msk: "N st \<le> length (mask_curr st)"
    and np: "N st \<le> np st * PACK_DENSITY" "np st < 2 ^ 30"
    and buf: "length g0 = Ncurr st"
    and cnt: "length (selected (N st) (mask_curr st)) = Ncurr st"
    and vs: "vs = selected_codes (N st) (mask_curr st) packed"
  shows "load_snp_double st j g0 =
    (let g = map dbl_of_nat vs;
         mean = dbl_div (dbl_of_nat (sum_list (non_missing vs))) (dbl_of_nat (Ncurr st));
         sum2 = fold (sum2_step g mean) (rev [0..<Ncurr st]) (Fin 0);
         sd = dbl_sqrt (dbl_div sum2
                (dbl_of_nat (uint_wrap (length (non_missing vs) + 2 ^ 32 - 1))));
         mean_sd = dbl_div mean sd
     in if length (non_missing vs) = Ncurr st
        then Some (standardise_all (Ncurr st) mean sd g)
        else Some (standardise_impute (Ncurr st) mean sd mean_sd g))"
proof -
  have c: "fold (collect_step (mask_curr st)
               (decode_plink (replicate (np st * PACK_DENSITY) 0) packed (np st)))
             [0..<N st] (g0, 0, 0, Fin 0)
      = (map dbl_of_nat vs, Ncurr st, length (non_missing vs),
         dbl_of_nat (sum_list (non_missing vs)))"
  proof -
    have "fold (collect_step (mask_curr st)
               (decode_plink (replicate (np st * PACK_DENSITY) 0) packed (np st)))
             [0..<N st] (g0, 0, 0, Fin 0)
      = (map dbl_of_nat (map (\<lambda>i. unat (decode_plink (replicate (np st * PACK_DENSITY) 0)
                 packed (np st) ! i)) (selected (N st) (mask_curr st)))
           @ drop (length (selected (N st) (mask_curr st))) g0,
         length (selected (N st) (mask_curr st)),
         length (non_missing (map (\<lambda>i. unat (decode_plink (replicate (np st * PACK_DENSITY) 0)
                 packed (np st) ! i)) (selected (N st) (mask_curr st)))),
         dbl_of_nat (sum_list (non_missing (map (\<lambda>i. unat (decode_plink
                 (replicate (np st * PACK_DENSITY) 0) packed (np st) ! i))
                 (selected (N st) (mask_curr st))))))"
      by (rule collect_loop) (simp add: buf cnt)
    then show ?thesis
      unfolding decoded_selected [OF np(1) less_imp_le [OF np(2)]] by (simp add: vs buf cnt)
  qed
  have w: "uint_wrap (np st * PACK_DENSITY) = np st * PACK_DENSITY"
    using np(2) by (simp add: uint_wrap_def PACK_DENSITY_def)
  show ?thesis
    using msk np(1) by (simp add: load_snp_double_def bytes w c Let_def)
qed

lemma non_missing_all:
  assumes "length (non_missing vs) = length vs"
  shows "\<forall>v\<in>set vs. v \<noteq> PLINK_NA"
proof (rule ccontr)
  assume "\<not> (\<forall>v\<in>set vs. v \<noteq> PLINK_NA)"
  then obtain v where "v \<in> set vs" "\<not> v \<noteq> PLINK_NA" by blast
  then have "length (filter (\<lambda>v. v \<noteq> PLINK_NA) vs) < length vs"
    by (rule length_filter_less)
  with assms show False by (simp add: non_missing_def)
qed

lemma non_missing_none:
  assumes "non_missing vs = []"
  shows "\<forall>v\<in>set vs. v = PLINK_NA"
  using assms by (auto simp add: non_missing_def filter_empty_conv)

lemma length_non_missing_le: "length (non_missing vs) \<le> length vs"
  by (simp add: non_missing_def)

lemma length_selected_codes [simp]:
  "length (selected_codes n msk packed) = length (selected n msk)"
  by (simp add: selected_codes_def)

lemma length_selected_le: "length (selected n msk) \<le> n"
proof -
  have "length (selected n msk) \<le> length [0..<n]"
    unfolding selected_def by (rule length_filter_le)
  then show ?thesis by simp
qed

lemma uint_wrap_pred:
  "1 \<le> n \<Longrightarrow> n \<le> 2 ^ 32 \<Longrightarrow> uint_wrap (n + 2 ^ 32 - 1) = n - 1"
  unfolding uint_wrap_def by (simp add: mod_if)

lemma dbl_sub_of_nat: "dbl_sub (dbl_of_nat x) (Fin m) = Fin (real x - m)"
  by (simp add: dbl_sub_def dbl_of_nat_def)

lemma standardise_finite:
  assumes bytes: "snp_bytes st j = Some packed"
    and msk: "N st \<le> length (mask_curr st)"
    and np: "N st \<le> np st * PACK_DENSITY" "np st < 2 ^ 30"
    and buf: "length g0 = Ncurr st"
    and cnt: "length (selected (N st) (mask_curr st)) = Ncurr st"
    and vs: "vs = selected_codes (N st) (mask_curr st) packed"
    and two: "2 \<le> length (non_missing vs)"
  shows "load_snp_double st j g0 = Some (spec_standardise vs)"
proof -
  have len: "length vs = Ncurr st" by (simp add: vs cnt)
  have n32: "length (non_missing vs) \<le> 2 ^ 32"
  proof -
    have "length (non_missing vs) \<le> N st"
      using length_non_missing_le [of vs] length_selected_le [of "N st" "mask_curr st"] len cnt
      by simp
    also have "\<dots> \<le> 2 ^ 30 * 4" using np by (simp add: PACK_DENSITY_def)
    finally show ?thesis by simp
  qed
  have pos: "0 < Ncurr st" using two length_non_missing_le [of vs] len by simp
  have mean: "dbl_div (dbl_of_nat (sum_list (non_missing vs))) (dbl_of_nat (Ncurr st))
      = Fin (spec_mean vs)"
    using pos by (simp add: dbl_of_nat_def spec_mean_def len)
  have sum2: "fold (sum2_step (map dbl_of_nat vs) (Fin (spec_mean vs))) (rev [0..<Ncurr st]) (Fin 0)
      = Fin (\<Sum>v\<leftarrow>non_missing vs. (real v - spec_mean vs)\<^sup>2)"
    using sum2_loop [of "Ncurr st" vs "spec_mean vs" 0] len by simp
  have wrap: "uint_wrap (length (non_missing vs) + 2 ^ 32 - 1) = length (non_missing vs) - 1"
    using two n32 by (intro uint_wrap_pred) simp_all
  have nonneg: "0 \<le> (\<Sum>v\<leftarrow>non_missing vs. (real v - spec_mean vs)\<^sup>2)
      / real (length (non_missing vs) - 1)"
    by (intro divide_nonneg_nonneg sum_list_nonneg) auto
  have sd: "dbl_sqrt (dbl_div (Fin (\<Sum>v\<leftarrow>non_missing vs. (real v - spec_mean vs)\<^sup>2))
        (dbl_of_nat (length (non_missing vs) - 1))) = Fin (spec_sd vs)"
  proof -
    have "real (length (non_missing vs) - 1) \<noteq> 0" using two by simp
    then have "dbl_div (Fin (\<Sum>v\<leftarrow>non_missing vs. (real v - spec_mean vs)\<^sup>2))
        (dbl_of_nat (length (non_missing vs) - 1))
      = Fin ((\<Sum>v\<leftarrow>non_missing vs. (real v - spec_mean vs)\<^sup>2)
          / real (length (non_missing vs) - 1))"
      by (simp add: dbl_of_nat_def)
    then show ?thesis using nonneg by (simp add: spec_sd_def)
  qed
  have unfold: "load_snp_double st j g0 =
      (if length (non_missing vs) = Ncurr st
       then Some (standardise_all (Ncurr st) (Fin (spec_mean vs)) (Fin (spec_sd vs))
           (map dbl_of_nat vs))
       else Some (standardise_impute (Ncurr st) (Fin (spec_mean vs)) (Fin (spec_sd vs))
           (dbl_div (Fin (spec_mean vs)) (Fin (spec_sd vs))) (map dbl_of_nat vs)))"
    unfolding load_snp_double_unfold [OF bytes msk np buf cnt vs] Let_def mean sum2 wrap sd
    by (rule refl)
  show ?thesis
  proof (cases "length (non_missing vs) = Ncurr st")
    case True
    then have "length (non_missing vs) = length vs" using len by simp
    then have "\<forall>v\<in>set vs. v \<noteq> PLINK_NA" by (rule non_missing_all)
    then show ?thesis
      unfolding unfold using True len
      by (simp add: standardise_all_map spec_standardise_def dbl_sub_of_nat comp_def)
  next
    case False
    then show ?thesis
      unfolding unfold using len
      by (simp add: standardise_impute_map spec_standardise_def dbl_sub_of_nat comp_def)
  qed
qed

text \<open>
  Claim C2. When at least two of the selected samples are not missing, the function
  returns the vector that the specification describes: the mean is the sum of the
  non-missing codes over the number of selected samples, the standard deviation is
  taken over the non-missing codes with their number less one as the denominator, a
  non-missing sample becomes \<open>(v - mean) / sd\<close> and a missing one \<open>mean / sd\<close>. The
  hypotheses say that the variant lies in the mapped file, that the mask and the
  scratch buffer cover the \<open>N\<close> samples, and that the buffer has the \<open>Ncurr\<close> cells
  that the mask selects.
\<close>

theorem load_snp_double_standardises:
  assumes "snp_bytes st j = Some packed"
    and "N st \<le> length (mask_curr st)"
    and "N st \<le> np st * PACK_DENSITY" and "np st < 2 ^ 30"
    and "length g0 = Ncurr st"
    and "length (selected (N st) (mask_curr st)) = Ncurr st"
    and "vs = selected_codes (N st) (mask_curr st) packed"
    and "2 \<le> length (non_missing vs)"
  shows "load_snp_double st j g0 = Some (spec_standardise vs)"
  using assms by (rule standardise_finite)

section \<open>The small data set, evaluated\<close>

lemma upt_0_4: "[0..<4] = [0, 1, 2, 3]"
  by (simp add: upt_conv_Cons)

lemma demo_split0:
  "split_data demo_data 0 = demo_data
     \<lparr>Ntrain := 3, Ntest := 1,
      mask_train := [True, True, True, False], mask_test := [False, False, False, True],
      Ytrain := [[Fin 1], [Fin (- 1)], [Fin 1]], Ytest := [[Fin (- 1)]],
      cache := Some (Cache_new 3 3 1024)\<rparr>"
  by (simp add: split_data_def demo_data_def uint_wrap_def int_of_uint_def matrix_zero_def matrix_cols_def
      split_step_def Let_def upt_0_4 numeral_3_eq_3)

lemma demo_train_eq:
  "demo_train = demo_data
     \<lparr>mode := DATA_MODE_TRAIN, Ncurr := 3, Ntrain := 3, Ntest := 1,
      mask_curr := [True, True, True, False],
      mask_train := [True, True, True, False], mask_test := [False, False, False, True],
      ones := [Fin 1, Fin 1, Fin 1], zeros := [Fin 0, Fin 0, Fin 0],
      Ytrain := [[Fin 1], [Fin (- 1)], [Fin 1]], Ytest := [[Fin (- 1)]],
      cache := Some (Cache_new 3 3 1024)\<rparr>"
  by (simp add: demo_train_def demo_split0 set_mode_def Let_def numeral_3_eq_3)

lemma demo_bytes:
  "snp_bytes demo_train 0 = Some [11]" "snp_bytes demo_train 1 = Some [18]"
  "snp_bytes demo_train 2 = Some [85]"
  by (simp_all add: snp_bytes_def demo_train_eq demo_data_def demo_bed_def PLINK_OFFSET_def
      uint_wrap_def)

lemma demo_selected: "selected 4 [True, True, True, False] = [0, 1, 2]"
  by (simp add: selected_def upt_0_4)

lemma sample_codes_11: "map (sample_code [11]) [0, 1, 2, 3] = [0, 1, 2, 2]"
  by (simp add: sample_code_def spec_dosage_def two_bit_group_def PACK_DENSITY_def
      PLINK_NA_def bit_0 bit_Suc)

lemma sample_codes_18: "map (sample_code [18]) [0, 1, 2, 3] = [1, 2, PLINK_NA, 2]"
  by (simp add: sample_code_def spec_dosage_def two_bit_group_def PACK_DENSITY_def
      PLINK_NA_def bit_0 bit_Suc)

lemma sample_codes_85:
  "map (sample_code [85]) [0, 1, 2, 3] = [PLINK_NA, PLINK_NA, PLINK_NA, PLINK_NA]"
  by (simp add: sample_code_def spec_dosage_def two_bit_group_def PACK_DENSITY_def
      PLINK_NA_def bit_0 bit_Suc)

lemma spec_standardise_demo: "spec_standardise [1, 2, PLINK_NA] = [Fin 0, Fin 1, Fin 1]"
  by (simp add: spec_standardise_def spec_mean_def spec_sd_def non_missing_def PLINK_NA_def)

theorem load_snp_double_standardises_witness:
  "snp_bytes demo_train 1 = Some [18] \<and>
   N demo_train \<le> length (mask_curr demo_train) \<and>
   N demo_train \<le> np demo_train * PACK_DENSITY \<and>
   np demo_train < 2 ^ 30 \<and>
   length [Fin 0, Fin 0, Fin 0] = Ncurr demo_train \<and>
   length (selected (N demo_train) (mask_curr demo_train)) = Ncurr demo_train \<and>
   [1, 2, PLINK_NA] = selected_codes (N demo_train) (mask_curr demo_train) [18] \<and>
   2 \<le> length (non_missing [1, 2, PLINK_NA]) \<and>
   load_snp_double demo_train 1 [Fin 0, Fin 0, Fin 0] = Some [Fin 0, Fin 1, Fin 1]"
proof -
  have h1: "snp_bytes demo_train 1 = Some [18]" by (rule demo_bytes)
  have h2: "N demo_train \<le> length (mask_curr demo_train)"
    by (simp add: demo_train_eq demo_data_def)
  have h3: "N demo_train \<le> np demo_train * PACK_DENSITY"
    by (simp add: demo_train_eq demo_data_def PACK_DENSITY_def)
  have h4: "np demo_train < 2 ^ 30" by (simp add: demo_train_eq demo_data_def)
  have h5: "length [Fin 0, Fin 0, Fin 0] = Ncurr demo_train" by (simp add: demo_train_eq)
  have h6: "length (selected (N demo_train) (mask_curr demo_train)) = Ncurr demo_train"
    by (simp add: demo_train_eq demo_data_def demo_selected)
  have h7: "[1, 2, PLINK_NA] = selected_codes (N demo_train) (mask_curr demo_train) [18]"
    using sample_codes_18
    by (simp add: demo_train_eq demo_data_def demo_selected selected_codes_def)
  have h8: "2 \<le> length (non_missing [1, 2, PLINK_NA])"
    by (simp add: non_missing_def PLINK_NA_def)
  have "load_snp_double demo_train 1 [Fin 0, Fin 0, Fin 0] = Some [Fin 0, Fin 1, Fin 1]"
    using load_snp_double_standardises [OF h1 h2 h3 h4 h5 h6 h7 h8]
    by (simp only: spec_standardise_demo)
  with h1 h2 h3 h4 h5 h6 h7 h8 show ?thesis by blast
qed

theorem fast_path_refines_general_witness:
  "length [Fin 1, Fin 2] = 2 \<and>
   dbl_ne (Fin 1) (dbl_of_nat PLINK_NA) \<and> dbl_ne (Fin 2) (dbl_of_nat PLINK_NA) \<and>
   standardise_all 2 (Fin 1) (Fin 1) [Fin 1, Fin 2]
     = standardise_impute 2 (Fin 1) (Fin 1) (Fin 7) [Fin 1, Fin 2] \<and>
   standardise_all 2 (Fin 1) (Fin 1) [Fin 1, Fin 2] = [Fin 0, Fin 1]"
proof -
  have h1: "length [Fin 1, Fin 2] = 2" by simp
  have n: "dbl_ne (Fin 1) (dbl_of_nat PLINK_NA)" "dbl_ne (Fin 2) (dbl_of_nat PLINK_NA)"
    by (simp_all add: dbl_ne_def dbl_of_nat_def PLINK_NA_def)
  then have h2: "\<forall>v\<in>set [Fin 1, Fin 2]. dbl_ne v (dbl_of_nat PLINK_NA)" by simp
  from fast_path_refines_general [OF h1 h2, of "Fin 1" "Fin 1" "Fin 7"]
  have a: "standardise_all 2 (Fin 1) (Fin 1) [Fin 1, Fin 2]
      = standardise_impute 2 (Fin 1) (Fin 1) (Fin 7) [Fin 1, Fin 2]"
    and b: "standardise_all 2 (Fin 1) (Fin 1) [Fin 1, Fin 2]
      = map (\<lambda>v. dbl_div (dbl_sub v (Fin 1)) (Fin 1)) [Fin 1, Fin 2]"
    by blast+
  have "standardise_all 2 (Fin 1) (Fin 1) [Fin 1, Fin 2] = [Fin 0, Fin 1]"
    unfolding b by (simp add: dbl_sub_def)
  with h1 n a show ?thesis by blast
qed

section \<open>Degenerate variants\<close>

lemma dbl_div_NaN [simp]: "dbl_div x NaN = NaN"
  by (cases x) simp_all

lemma map_const_replicate:
  "\<forall>x\<in>set xs. f x = c \<Longrightarrow> map f xs = replicate (length xs) c"
  by (induction xs) simp_all

lemma degenerate_none:
  assumes bytes: "snp_bytes st j = Some packed"
    and msk: "N st \<le> length (mask_curr st)"
    and np: "N st \<le> np st * PACK_DENSITY" "np st < 2 ^ 30"
    and buf: "length g0 = Ncurr st"
    and cnt: "length (selected (N st) (mask_curr st)) = Ncurr st"
    and vs: "vs = selected_codes (N st) (mask_curr st) packed"
    and pos: "1 \<le> Ncurr st"
    and none: "non_missing vs = []"
  shows "load_snp_double st j g0 = Some (replicate (Ncurr st) NaN)"
proof -
  have len: "length vs = Ncurr st" by (simp add: vs cnt)
  have mean: "dbl_div (dbl_of_nat (sum_list (non_missing vs))) (dbl_of_nat (Ncurr st)) = Fin 0"
    using pos by (simp add: none dbl_of_nat_def)
  have sum2: "fold (sum2_step (map dbl_of_nat vs) (Fin 0)) (rev [0..<Ncurr st]) (Fin 0) = Fin 0"
    using sum2_loop [of "Ncurr st" vs 0 0] len by (simp add: none)
  have sd: "dbl_sqrt (dbl_div (Fin 0)
      (dbl_of_nat (uint_wrap (length (non_missing vs) + 2 ^ 32 - 1)))) = Fin 0"
    by (simp add: none uint_wrap_def dbl_of_nat_def)
  have unfold: "load_snp_double st j g0 =
      Some (standardise_impute (Ncurr st) (Fin 0) (Fin 0) NaN (map dbl_of_nat vs))"
    unfolding load_snp_double_unfold [OF bytes msk np buf cnt vs] Let_def mean sum2 sd
    using pos by (simp add: none)
  have "map (\<lambda>v. if dbl_eq v (dbl_of_nat PLINK_NA) then NaN
                  else dbl_div (dbl_sub v (Fin 0)) (Fin 0)) (map dbl_of_nat vs)
      = replicate (length (map dbl_of_nat vs)) NaN"
    using non_missing_none [OF none] by (intro map_const_replicate) simp
  then show ?thesis
    unfolding unfold using len by (simp add: standardise_impute_map)
qed

lemma degenerate_one:
  assumes bytes: "snp_bytes st j = Some packed"
    and msk: "N st \<le> length (mask_curr st)"
    and np: "N st \<le> np st * PACK_DENSITY" "np st < 2 ^ 30"
    and buf: "length g0 = Ncurr st"
    and cnt: "length (selected (N st) (mask_curr st)) = Ncurr st"
    and vs: "vs = selected_codes (N st) (mask_curr st) packed"
    and one: "length (non_missing vs) = 1"
  shows "load_snp_double st j g0 = Some (replicate (Ncurr st) NaN) \<or>
         load_snp_double st j g0 = Some (replicate (Ncurr st) (Fin 0))"
proof -
  have len: "length vs = Ncurr st" by (simp add: vs cnt)
  have pos: "0 < Ncurr st" using length_non_missing_le [of vs] one len by simp
  obtain m where mean:
    "dbl_div (dbl_of_nat (sum_list (non_missing vs))) (dbl_of_nat (Ncurr st)) = Fin m"
    using pos by (simp add: dbl_of_nat_def)
  have sum2: "fold (sum2_step (map dbl_of_nat vs) (Fin m)) (rev [0..<Ncurr st]) (Fin 0)
      = Fin (\<Sum>v\<leftarrow>non_missing vs. (real v - m)\<^sup>2)"
    using sum2_loop [of "Ncurr st" vs m 0] len by simp
  have nonneg: "0 \<le> (\<Sum>v\<leftarrow>non_missing vs. (real v - m)\<^sup>2)"
    by (intro sum_list_nonneg) auto
  obtain sd where sd: "dbl_sqrt (dbl_div (Fin (\<Sum>v\<leftarrow>non_missing vs. (real v - m)\<^sup>2))
      (dbl_of_nat (uint_wrap (length (non_missing vs) + 2 ^ 32 - 1)))) = sd"
    and sd_cases: "sd = NaN \<or> sd = PInf"
    using nonneg by (auto simp add: one uint_wrap_def dbl_of_nat_def inf_of_sign_def)
  have unfold: "load_snp_double st j g0 =
      (if length (non_missing vs) = Ncurr st
       then Some (standardise_all (Ncurr st) (Fin m) sd (map dbl_of_nat vs))
       else Some (standardise_impute (Ncurr st) (Fin m) sd (dbl_div (Fin m) sd)
                    (map dbl_of_nat vs)))"
    unfolding load_snp_double_unfold [OF bytes msk np buf cnt vs] Let_def mean sum2 sd
    by (rule refl)
  from sd_cases show ?thesis
  proof
    assume "sd = NaN"
    then have "load_snp_double st j g0 = Some (replicate (Ncurr st) NaN)"
      unfolding unfold using len
      by (simp add: standardise_all_map standardise_impute_map map_replicate_const comp_def
          cong: if_cong)
    then show ?thesis ..
  next
    assume "sd = PInf"
    then have "load_snp_double st j g0 = Some (replicate (Ncurr st) (Fin 0))"
      unfolding unfold using len
      by (simp add: standardise_all_map standardise_impute_map map_replicate_const comp_def
          dbl_sub_of_nat cong: if_cong)
    then show ?thesis ..
  qed
qed

text \<open>
  Claim C4, as amended. The function has no guard for a degenerate variant and raises
  nothing: with a non-empty selection and at most one non-missing sample it returns a
  vector of \<open>Ncurr\<close> entries, all of them NaN when no selected sample is non-missing,
  and all of them NaN or all of them zero when exactly one is. With no non-missing
  sample the divisor \<open>ngood - 1\<close> wraps around to \<open>4294967295\<close>, the deviation is 0
  and \<open>mean / sd\<close> is \<open>0 / 0\<close>; with one, the divisor is 0 and the deviation is NaN
  or infinite.
\<close>

theorem load_snp_double_degenerate:
  assumes "snp_bytes st j = Some packed"
    and "N st \<le> length (mask_curr st)"
    and "N st \<le> np st * PACK_DENSITY" and "np st < 2 ^ 30"
    and "length g0 = Ncurr st"
    and "length (selected (N st) (mask_curr st)) = Ncurr st"
    and "vs = selected_codes (N st) (mask_curr st) packed"
    and "1 \<le> Ncurr st"
    and "length (non_missing vs) \<le> 1"
  shows "(non_missing vs = [] \<longrightarrow> load_snp_double st j g0 = Some (replicate (Ncurr st) NaN)) \<and>
         (load_snp_double st j g0 = Some (replicate (Ncurr st) NaN) \<or>
          load_snp_double st j g0 = Some (replicate (Ncurr st) (Fin 0)))"
proof (cases "non_missing vs = []")
  case True
  with assms show ?thesis by (simp add: degenerate_none)
next
  case False
  with assms(9) have "length (non_missing vs) = 1"
    by (cases "non_missing vs") simp_all
  with assms False show ?thesis by (simp add: degenerate_one)
qed

section \<open>Requests in test mode\<close>

lemma load_snp_cache_irrelevant: "load_snp (st\<lparr>cache := c\<rparr>) j = load_snp st j"
  by (simp add: load_snp_def load_snp_double_def snp_bytes_def
      cong: option.case_cong if_cong)

lemma train_not_test: "DATA_MODE_TEST \<noteq> DATA_MODE_TRAIN"
  by (simp add: DATA_MODE_TEST_def DATA_MODE_TRAIN_def)

text \<open>
  Claim C5. In test mode a request for variant \<open>j\<close> is \<open>load_snp\<close> on the mapped file
  and nothing else: the vector does not depend on what the cache holds, and the state
  after the request differs from the one before only in the field \<open>geno\<close>, so the
  cache, its entries and their order are as they were.
\<close>

theorem get_snp_test_mode:
  assumes "mode st = DATA_MODE_TEST"
  shows "get_snp st j = map_option (\<lambda>v. (v, st\<lparr>geno := v\<rparr>)) (load_snp st j) \<and>
         map_option fst (get_snp (st\<lparr>cache := c\<rparr>) j) = map_option fst (get_snp st j) \<and>
         (\<forall>v st'. get_snp st j = Some (v, st') \<longrightarrow> cache st' = cache st)"
proof -
  have a: "get_snp st j = map_option (\<lambda>v. (v, st\<lparr>geno := v\<rparr>)) (load_snp st j)"
    using assms train_not_test by (simp add: get_snp_def split: option.splits)
  have b: "get_snp (st\<lparr>cache := c\<rparr>) j
      = map_option (\<lambda>v. (v, st\<lparr>cache := c, geno := v\<rparr>)) (load_snp st j)"
    using assms train_not_test
    by (simp add: get_snp_def load_snp_cache_irrelevant split: option.splits)
  have "map_option fst (get_snp (st\<lparr>cache := c\<rparr>) j) = map_option fst (get_snp st j)"
    unfolding a b by (simp add: option.map_comp comp_def)
  moreover have "\<forall>v st'. get_snp st j = Some (v, st') \<longrightarrow> cache st' = cache st"
    unfolding a by auto
  ultimately show ?thesis using a by simp
qed

section \<open>Requests on the small data set\<close>

lemma demo_split1:
  "split_data demo_data 1 = demo_data
     \<lparr>Ntrain := 1, Ntest := 3,
      mask_train := [False, False, False, True], mask_test := [True, True, True, False],
      Ytrain := [[Fin (- 1)]], Ytest := [[Fin 1], [Fin (- 1)], [Fin 1]],
      cache := Some (Cache_new 1 3 1024)\<rparr>"
  by (simp add: split_data_def demo_data_def uint_wrap_def int_of_uint_def matrix_zero_def matrix_cols_def
      split_step_def Let_def upt_0_4 numeral_3_eq_3)

lemma demo_test_eq:
  "demo_test = demo_data
     \<lparr>mode := DATA_MODE_TEST, Ncurr := 3, Ntrain := 1, Ntest := 3,
      mask_curr := [True, True, True, False],
      mask_train := [False, False, False, True], mask_test := [True, True, True, False],
      ones := [Fin 1, Fin 1, Fin 1], zeros := [Fin 0, Fin 0, Fin 0],
      Ytrain := [[Fin (- 1)]], Ytest := [[Fin 1], [Fin (- 1)], [Fin 1]],
      cache := Some (Cache_new 1 3 1024)\<rparr>"
  unfolding demo_test_def demo_split1
  by (simp add: set_mode_def Let_def numeral_3_eq_3 DATA_MODE_TEST_def DATA_MODE_TRAIN_def)

text \<open>The facts about a state that the standardiser needs, for the two demo states.\<close>

lemma demo_train_shape:
  "N demo_train \<le> length (mask_curr demo_train)"
  "N demo_train \<le> np demo_train * PACK_DENSITY"
  "np demo_train < 2 ^ 30"
  "length (replicate (Ncurr demo_train) (Fin 0)) = Ncurr demo_train"
  "length (selected (N demo_train) (mask_curr demo_train)) = Ncurr demo_train"
  by (simp_all add: demo_train_eq demo_data_def PACK_DENSITY_def demo_selected)

lemma demo_train_codes:
  "[0, 1, 2] = selected_codes (N demo_train) (mask_curr demo_train) [11]"
  "[1, 2, PLINK_NA] = selected_codes (N demo_train) (mask_curr demo_train) [18]"
  "[PLINK_NA, PLINK_NA, PLINK_NA] = selected_codes (N demo_train) (mask_curr demo_train) [85]"
  using sample_codes_11 sample_codes_18 sample_codes_85
  by (simp_all add: demo_train_eq demo_data_def demo_selected selected_codes_def)

lemma demo_test_shape:
  "snp_bytes demo_test 0 = Some [11]"
  "N demo_test \<le> length (mask_curr demo_test)"
  "N demo_test \<le> np demo_test * PACK_DENSITY"
  "np demo_test < 2 ^ 30"
  "length (replicate (Ncurr demo_test) (Fin 0)) = Ncurr demo_test"
  "length (selected (N demo_test) (mask_curr demo_test)) = Ncurr demo_test"
  "[0, 1, 2] = selected_codes (N demo_test) (mask_curr demo_test) [11]"
  using sample_codes_11
  by (simp_all add: demo_test_eq demo_data_def PACK_DENSITY_def demo_selected
      selected_codes_def snp_bytes_def demo_bed_def PLINK_OFFSET_def uint_wrap_def)

lemma spec_standardise_012: "spec_standardise [0, 1, 2] = [Fin (- 1), Fin 0, Fin 1]"
  by (simp add: spec_standardise_def spec_mean_def spec_sd_def non_missing_def PLINK_NA_def)

lemma non_missing_012: "2 \<le> length (non_missing [0, 1, 2])"
  by (simp add: non_missing_def PLINK_NA_def)


lemma demo_test_load0: "load_snp demo_test 0 = Some [Fin (- 1), Fin 0, Fin 1]"
  using standardise_finite [OF demo_test_shape non_missing_012]
  unfolding load_snp_def spec_standardise_012 .

lemma demo_train_Ncurr: "Ncurr demo_train = 3"
  by (simp add: demo_train_eq)

text \<open>
  The third variant of the small data set is missing in every sample: loading it in
  training mode returns three NaNs, and no error.
\<close>

theorem all_missing_variant_loads_NaN:
  "load_snp demo_train 2 = Some [NaN, NaN, NaN]"
proof -
  have "non_missing [PLINK_NA, PLINK_NA, PLINK_NA] = []" by (simp add: non_missing_def)
  with degenerate_none [OF demo_bytes(3) demo_train_shape demo_train_codes(3)]
  show ?thesis by (simp add: load_snp_def demo_train_Ncurr numeral_3_eq_3)
qed

theorem load_snp_double_degenerate_witness:
  "snp_bytes demo_train 2 = Some [85] \<and>
   N demo_train \<le> length (mask_curr demo_train) \<and>
   N demo_train \<le> np demo_train * PACK_DENSITY \<and>
   np demo_train < 2 ^ 30 \<and>
   length (replicate (Ncurr demo_train) (Fin 0)) = Ncurr demo_train \<and>
   length (selected (N demo_train) (mask_curr demo_train)) = Ncurr demo_train \<and>
   [PLINK_NA, PLINK_NA, PLINK_NA] = selected_codes (N demo_train) (mask_curr demo_train) [85] \<and>
   1 \<le> Ncurr demo_train \<and>
   length (non_missing [PLINK_NA, PLINK_NA, PLINK_NA]) \<le> 1 \<and>
   non_missing [PLINK_NA, PLINK_NA, PLINK_NA] = [] \<and>
   load_snp_double demo_train 2 (replicate (Ncurr demo_train) (Fin 0))
     = Some (replicate (Ncurr demo_train) NaN)"
proof -
  have e: "non_missing [PLINK_NA, PLINK_NA, PLINK_NA] = []" by (simp add: non_missing_def)
  have p: "1 \<le> Ncurr demo_train" by (simp add: demo_train_Ncurr)
  have l: "length (non_missing [PLINK_NA, PLINK_NA, PLINK_NA]) \<le> 1" by (simp add: e)
  from load_snp_double_degenerate
    [OF demo_bytes(3) demo_train_shape demo_train_codes(3) p l] e
  have "load_snp_double demo_train 2 (replicate (Ncurr demo_train) (Fin 0))
      = Some (replicate (Ncurr demo_train) NaN)"
    by blast
  with demo_bytes(3) demo_train_shape demo_train_codes(3) p l e show ?thesis by blast
qed

lemma demo_test_mode: "mode demo_test = DATA_MODE_TEST"
  by (simp add: demo_test_eq)

theorem get_snp_test_mode_witness:
  "mode demo_test = DATA_MODE_TEST \<and>
   get_snp demo_test 0
     = Some ([Fin (- 1), Fin 0, Fin 1], demo_test\<lparr>geno := [Fin (- 1), Fin 0, Fin 1]\<rparr>) \<and>
   cache (demo_test\<lparr>geno := [Fin (- 1), Fin 0, Fin 1]\<rparr>) = cache demo_test"
proof -
  from get_snp_test_mode [OF demo_test_mode, of 0]
  have "get_snp demo_test 0
      = map_option (\<lambda>v. (v, demo_test\<lparr>geno := v\<rparr>)) (load_snp demo_test 0)"
    by blast
  then have "get_snp demo_test 0
      = Some ([Fin (- 1), Fin 0, Fin 1], demo_test\<lparr>geno := [Fin (- 1), Fin 0, Fin 1]\<rparr>)"
    by (simp add: demo_test_load0)
  then show ?thesis using demo_test_mode by simp
qed

section \<open>Opening the genotype file, and the folds\<close>

lemma ceil_quarter: "nat \<lceil>real n / real PACK_DENSITY\<rceil> = (n + 3) div 4"
proof -
  have "\<lceil>real n / real PACK_DENSITY\<rceil> = \<lceil>real_of_int (int n) / real_of_int 4\<rceil>"
    by (simp add: PACK_DENSITY_def)
  also have "\<dots> = - (- int n div 4)"
    by (rule ceiling_divide_eq_div)
  also have "\<dots> = int ((n + 3) div 4)" by (simp add: zdiv_int)
  finally show ?thesis by simp
qed

lemma file_size_minus_offset:
  assumes "PLINK_OFFSET \<le> n" and "n - PLINK_OFFSET < 2 ^ w" and "w \<le> 64"
  shows "((n + 2 ^ 64 - PLINK_OFFSET) mod 2 ^ 64) mod 2 ^ w = n - PLINK_OFFSET"
proof -
  have "(2::nat) ^ w \<le> 2 ^ 64" using assms(3) by (intro power_increasing) simp_all
  then have lt: "n - PLINK_OFFSET < 2 ^ 64" using assms(2) by simp
  have "n + 2 ^ 64 - PLINK_OFFSET = (n - PLINK_OFFSET) + 1 * 2 ^ 64"
    using assms(1) by simp
  then have "(n + 2 ^ 64 - PLINK_OFFSET) mod 2 ^ 64 = (n - PLINK_OFFSET) mod 2 ^ 64"
    by (simp only: mod_mult_self1)
  then show ?thesis using lt assms(2) by simp
qed

text \<open>
  Claim C7. When the file can be mapped and the sample count is known, opening it does
  not fail, whatever the size of the payload: the stride is \<open>ceil(N / 4)\<close> and the
  variant count is the payload size divided by the stride, rounded down, so the bytes
  of a trailing partial variant are not counted. The hypotheses keep the sizes within
  the machine types: the file has its header, its payload fits the field \<open>len\<close>, and
  the variant count fits an \<open>unsigned int\<close>.
\<close>

theorem mmap_bed_truncates:
  assumes "fs filename = Some bytes"
    and "N st \<noteq> 0" and "N st < 2 ^ 32"
    and "PLINK_OFFSET \<le> length bytes"
    and "length bytes - PLINK_OFFSET < 2 ^ w" and "w \<le> 64"
    and "(length bytes - PLINK_OFFSET) div nat \<lceil>real (N st) / real PACK_DENSITY\<rceil> < 2 ^ 32"
  shows "mmap_bed w fs st filename =
     Inr (st\<lparr>geno_filename := filename, geno_fin := Some bytes,
             len := length bytes - PLINK_OFFSET,
             np := nat \<lceil>real (N st) / real PACK_DENSITY\<rceil>,
             nsnps := (length bytes - PLINK_OFFSET)
                        div nat \<lceil>real (N st) / real PACK_DENSITY\<rceil>\<rparr>)"
proof -
  have np: "uint_wrap (nat \<lceil>real (N st) / real PACK_DENSITY\<rceil>)
      = nat \<lceil>real (N st) / real PACK_DENSITY\<rceil>"
    using assms(3) unfolding ceil_quarter uint_wrap_def by simp
  have l: "((length bytes + 2 ^ 64 - PLINK_OFFSET) mod 2 ^ 64) mod 2 ^ w
      = length bytes - PLINK_OFFSET"
    using assms(4-6) by (rule file_size_minus_offset)
  have n: "uint_wrap ((length bytes - PLINK_OFFSET)
        div nat \<lceil>real (N st) / real PACK_DENSITY\<rceil>)
      = (length bytes - PLINK_OFFSET) div nat \<lceil>real (N st) / real PACK_DENSITY\<rceil>"
    using assms(7) by (simp add: uint_wrap_def)
  have l': "(length bytes + 18446744073709551616 - PLINK_OFFSET) mod 18446744073709551616
      mod 2 ^ w = length bytes - PLINK_OFFSET"
    using l by simp
  show ?thesis
    using assms(1,2) by (simp add: mmap_bed_def Let_def l' np n)
qed

theorem mmap_bed_truncates_witness:
  "demo_fs ''demo.bed'' = Some demo_bed \<and> N demo_five \<noteq> 0 \<and> N demo_five < 2 ^ 32 \<and>
   PLINK_OFFSET \<le> length demo_bed \<and> length demo_bed - PLINK_OFFSET < 2 ^ 64 \<and>
   (64::nat) \<le> 64 \<and>
   (length demo_bed - PLINK_OFFSET) div nat \<lceil>real (N demo_five) / real PACK_DENSITY\<rceil> < 2 ^ 32 \<and>
   length demo_bed - PLINK_OFFSET = 3 \<and>
   mmap_bed 64 demo_fs demo_five ''demo.bed'' =
     Inr (demo_five\<lparr>geno_filename := ''demo.bed'', geno_fin := Some demo_bed,
                     len := 3, np := 2, nsnps := 1\<rparr>)"
proof -
  have c: "nat \<lceil>real (N demo_five) / real PACK_DENSITY\<rceil> = 2"
    unfolding ceil_quarter by (simp add: demo_five_def demo_unopened_def)
  have p: "length demo_bed - PLINK_OFFSET = 3"
    by (simp add: demo_bed_def PLINK_OFFSET_def)
  have h1: "demo_fs ''demo.bed'' = Some demo_bed" by (simp add: demo_fs_def)
  have h2: "N demo_five \<noteq> 0" by (simp add: demo_five_def)
  have h3: "N demo_five < 2 ^ 32" by (simp add: demo_five_def)
  have h4: "PLINK_OFFSET \<le> length demo_bed" by (simp add: demo_bed_def PLINK_OFFSET_def)
  have h5: "length demo_bed - PLINK_OFFSET < 2 ^ 64" by (simp add: p)
  have h6: "(64::nat) \<le> 64" by simp
  have h7: "(length demo_bed - PLINK_OFFSET)
      div nat \<lceil>real (N demo_five) / real PACK_DENSITY\<rceil> < 2 ^ 32"
    by (simp add: p c)
  have "mmap_bed 64 demo_fs demo_five ''demo.bed'' =
     Inr (demo_five\<lparr>geno_filename := ''demo.bed'', geno_fin := Some demo_bed,
                     len := 3, np := 2, nsnps := 1\<rparr>)"
    using mmap_bed_truncates [where fs = demo_fs and filename = "''demo.bed''"
        and bytes = demo_bed and st = demo_five and w = 64, OF h1 h2 h3 h4 h5 h6 h7]
    by (simp add: p c)
  with h1 h2 h3 h4 h5 h6 h7 p show ?thesis by blast
qed

text \<open>
  Claim C8, as amended. With a sample count of 0 opening always fails, and the check
  comes after the file name has been stored and the file mapped: when the file cannot
  be mapped the failure is the one of the mapping, and only the file name has changed;
  otherwise it is the runtime error about the unknown sample size, and the file name
  and the mapped file have changed. The fields \<open>len\<close>, \<open>np\<close> and \<open>nsnps\<close> keep their
  values in both cases.
\<close>

theorem mmap_bed_no_sample_size:
  assumes "N st = 0"
  shows "mmap_bed w fs st filename =
     (case fs filename of
        None \<Rightarrow> Inl (Mapping_failure, st\<lparr>geno_filename := filename\<rparr>)
      | Some bytes \<Rightarrow>
          Inl (Runtime_error no_sample_size,
               st\<lparr>geno_filename := filename, geno_fin := Some bytes\<rparr>))"
  using assms by (simp add: mmap_bed_def Let_def split: option.splits)

theorem mmap_bed_no_sample_size_witness:
  "N demo_unopened = 0 \<and>
   mmap_bed 64 demo_fs demo_unopened ''demo.bed'' =
     Inl (Runtime_error no_sample_size,
          demo_unopened\<lparr>geno_filename := ''demo.bed'', geno_fin := Some demo_bed\<rparr>)"
proof -
  have h: "N demo_unopened = 0" by (simp add: demo_unopened_def)
  from mmap_bed_no_sample_size [OF h, of 64 demo_fs "''demo.bed''"] h
  show ?thesis by (simp add: demo_fs_def)
qed

text \<open>
  On the unopened object the runtime error leaves a state that is not the one before
  the call: the mapped file is there.
\<close>

theorem mmap_bed_mutates_before_throwing:
  "mmap_bed 64 demo_fs demo_unopened ''demo.bed'' =
     Inl (Runtime_error no_sample_size,
          demo_unopened\<lparr>geno_filename := ''demo.bed'', geno_fin := Some demo_bed\<rparr>) \<and>
   geno_fin demo_unopened = None \<and>
   geno_fin (demo_unopened\<lparr>geno_filename := ''demo.bed'', geno_fin := Some demo_bed\<rparr>)
     = Some demo_bed \<and>
   demo_unopened\<lparr>geno_filename := ''demo.bed'', geno_fin := Some demo_bed\<rparr> \<noteq> demo_unopened"
proof -
  have "geno_fin (demo_unopened\<lparr>geno_filename := ''demo.bed'', geno_fin := Some demo_bed\<rparr>)
      \<noteq> geno_fin demo_unopened"
    by (simp add: demo_unopened_def)
  then have "demo_unopened\<lparr>geno_filename := ''demo.bed'', geno_fin := Some demo_bed\<rparr>
      \<noteq> demo_unopened"
    by metis
  then show ?thesis
    by (simp add: mmap_bed_def Let_def demo_fs_def demo_unopened_def)
qed

text \<open>
  Claim C9 fails where the draw is exactly 1: with two folds, \<open>(1 + 1) / 2 * 2\<close> is 2,
  which is not a fold id below 2. The draw \<open>-1\<close> gives fold 0 and the draw 0 fold 1.
\<close>

theorem make_folds_past_last_fold:
  "make_folds demo_data [Fin 1, Fin (- 1), Fin 0, Fin 1]
     = Some (demo_data\<lparr>folds := [2, 0, 1, 2]\<rparr>) \<and>
   nfolds demo_data = 2"
  by (simp add: make_folds_def fold_of_def dbl_to_int_def dbl_of_nat_def demo_data_def)

text \<open>The small data set is what opening the file and drawing the folds leave.\<close>

lemma demo_data_opened:
  "mmap_bed 64 demo_fs (demo_unopened\<lparr>N := 4\<rparr>) ''demo.bed'' = Inr demo_data"
proof -
  have c: "nat \<lceil>real (4::nat) / real PACK_DENSITY\<rceil> = 1"
    unfolding ceil_quarter by simp
  show ?thesis
    using c
    by (simp add: mmap_bed_def Let_def demo_fs_def demo_unopened_def demo_data_def demo_bed_def
        PLINK_OFFSET_def uint_wrap_def)
qed

lemma demo_data_folds:
  "make_folds (demo_data\<lparr>folds := []\<rparr>) [Fin (1 / 2), Fin 0, Fin (9 / 10), Fin (- 1)]
     = Some demo_data"
  by (simp add: make_folds_def fold_of_def dbl_to_int_def dbl_of_nat_def demo_data_def)

section \<open>Folds and the cache\<close>





lemma load_snp_cong:
  assumes "geno_fin s = geno_fin t" "np s = np t" "N s = N t" "mask_curr s = mask_curr t"
    "Ncurr s = Ncurr t"
  shows "load_snp s j = load_snp t j"
  using assms
  by (simp add: load_snp_def load_snp_double_def snp_bytes_def cong: option.case_cong if_cong)














section \<open>Coordinates\<close>


lemma map_of_list_all:
  "map_of es k = Some v \<Longrightarrow> list_all P es \<Longrightarrow> P (k, v)"
  by (auto simp add: list_all_iff dest: map_of_SomeD)





lemma keep_fitting_subset: "set (keep_fitting avail es) \<subseteq> set es"
  by (induction es arbitrary: avail) auto

lemma coordinates_ready_frame:
  "coordinates_ready (st\<lparr>geno := v\<rparr>) = coordinates_ready st"
  "coordinates_ready (st\<lparr>geno := v, cache := c\<rparr>) = coordinates_ready st"
  by (simp_all add: coordinates_ready_def)

lemma load_snp_frame:
  "load_snp (st\<lparr>geno := v\<rparr>) k = load_snp st k"
  "load_snp (st\<lparr>geno := v, cache := c\<rparr>) k = load_snp st k"
  by (rule load_snp_cong; simp)+

lemma get_snp_preserves:
  assumes "get_snp st j = Some (v, st')" and "cache_coherent st"
  shows "cache_coherent st' \<and> coordinates_ready st' = coordinates_ready st"
proof (cases "mode st = DATA_MODE_TRAIN")
  case False
  with assms show ?thesis
    by (auto simp add: get_snp_def cache_coherent_def coordinates_ready_frame
        split: option.splits)
next
  case True
  with assms(2) obtain c where c: "cache st = Some c"
    and all: "list_all (\<lambda>e. load_snp st (fst e) = Some (snd e)) (cache_entries c)"
    by (auto simp add: cache_coherent_def split: option.splits)
  show ?thesis
  proof (cases "map_of (cache_entries c) j")
    case (Some w)
    from map_of_list_all [OF Some all] have w: "load_snp st j = Some w" by simp
    from assms(1) True c Some
    have st': "st' = st\<lparr>geno := w, cache := Some (c\<lparr>cache_entries :=
        (j, w) # filter (\<lambda>e. fst e \<noteq> j) (cache_entries c)\<rparr>)\<rparr>"
      by (auto simp add: get_snp_def cache_get_def)
    show ?thesis
      unfolding st' using True all w
      by (simp add: cache_coherent_def coordinates_ready_frame load_snp_frame list_all_iff)
  next
    case None
    from assms(1) True c None have w: "load_snp st j = Some v"
      and st': "st' = st\<lparr>geno := v, cache := Some (cache_put c j v)\<rparr>"
      by (auto simp add: get_snp_def cache_get_def split: option.splits)
    have "list_all (\<lambda>e. load_snp st (fst e) = Some (snd e)) (cache_entries (cache_put c j v))"
      using all w keep_fitting_subset
        [of "cache_budget c - vector_bytes v" "filter (\<lambda>e. fst e \<noteq> j) (cache_entries c)"]
      by (auto simp add: cache_put_def list_all_iff)
    then show ?thesis
      unfolding st' using True
      by (simp add: cache_coherent_def coordinates_ready_frame load_snp_frame)
  qed
qed

lemma get_coordinate_preserves:
  assumes "get_coordinate st j = Some (v, st')" and "cache_coherent st"
  shows "cache_coherent st' \<and> coordinates_ready st' = coordinates_ready st"
proof -
  consider "j = 0" | "1 \<le> j \<and> j \<le> nsnps st" | "nsnps st < j" by linarith
  then show ?thesis
  proof cases
    case 1
    with assms show ?thesis by (simp add: get_coordinate_def)
  next
    case 2
    with assms(1) have "get_snp st (j - 1) = Some (v, st')"
      by (simp add: get_coordinate_def)
    then show ?thesis using assms(2) by (rule get_snp_preserves)
  next
    case 3
    with assms(1) have "st' = st"
      by (auto simp add: get_coordinate_def Let_def split: if_splits prod.splits)
    with assms(2) show ?thesis by simp
  qed
qed







end
